theory Spec2Isabelle
  imports Main "HOL-Library.Sublist" "HOL-Library.Finite_Map"
    "HOL-Library.Char_ord" "HOL-Library.List_Lexorder"
begin

section \<open>The hide-list engine of \<^verbatim>\<open>zygisk/hide/utils.cpp\<close>\<close>

text \<open>
  A \<^verbatim>\<open>const char *\<close> or \<^verbatim>\<open>string_view\<close> is the list of its characters (for a C string:
  the characters before the terminator). \<^verbatim>\<open>std::map\<close> is a finite map, \<^verbatim>\<open>std::set\<close> a set;
  a \<^verbatim>\<open>unique_ptr\<close> is an option, \<open>None\<close> being the null pointer. Dereferencing a null
  pointer or an end iterator is a \<open>fault\<close>. Everything the code reads from the operating
  system or the database engine is a field of the record \<open>world\<close>.
\<close>

subsection \<open>String helpers\<close>

definition str_eql :: "string \<Rightarrow> string \<Rightarrow> bool" where
  "str_eql s ss = (s = ss)"

text \<open>
  Modelled from the spec: \<^verbatim>\<open>str_starts\<close> and \<^verbatim>\<open>str_ends\<close> are declared in \<^verbatim>\<open>utils.hpp\<close>, which
  is not among the sources. \<^verbatim>\<open>proc_name_match<&str_starts>\<close> applies the operation to
  (command line, name) and the spec calls the outcome "name starts with proc"; the
  enable-time sweep applies \<^verbatim>\<open>str_ends\<close> to (command line, "_zygote"). So the first argument
  is the string examined, the second the prefix or suffix looked for.
\<close>

definition str_starts :: "string \<Rightarrow> string \<Rightarrow> bool" where
  "str_starts s ss = prefix ss s"

definition str_ends :: "string \<Rightarrow> string \<Rightarrow> bool" where
  "str_ends s ss = suffix ss s"

definition str_ends_safe :: "string \<Rightarrow> string \<Rightarrow> bool" where
  "str_ends_safe s ss = (if s = ''webview_zygote'' then False else str_ends s ss)"

text \<open>\<^verbatim>\<open>isalnum\<close> of the C locale.\<close>

definition isalnum :: "char \<Rightarrow> bool" where
  "isalnum c =
     (let n = (of_char c :: nat)
      in (48 \<le> n \<and> n \<le> 57) \<or> (65 \<le> n \<and> n \<le> 90) \<or> (97 \<le> n \<and> n \<le> 122))"

subsection \<open>Validator\<close>

text \<open>The three loops of \<^verbatim>\<open>validate\<close>; each stops at the end of the C string.\<close>

fun validate_isolated_proc :: "string \<Rightarrow> bool" where
  "validate_isolated_proc [] = True"
| "validate_isolated_proc (c # cs) =
     (if isalnum c \<or> c = CHR ''_'' \<or> c = CHR ''.'' then validate_isolated_proc cs
      else if c = CHR '':'' then True
      else False)"

text \<open>The second argument is the running value of \<^verbatim>\<open>pkg_valid\<close>.\<close>

fun validate_pkg :: "string \<Rightarrow> bool \<Rightarrow> bool" where
  "validate_pkg [] v = v"
| "validate_pkg (c # cs) v =
     (if isalnum c \<or> c = CHR ''_'' then validate_pkg cs v
      else if c = CHR ''.'' then validate_pkg cs True
      else False)"

fun validate_proc :: "string \<Rightarrow> bool" where
  "validate_proc [] = True"
| "validate_proc (c # cs) =
     (if isalnum c \<or> c = CHR ''_'' \<or> c = CHR '':'' \<or> c = CHR ''.'' then validate_proc cs
      else False)"

text \<open>
  \<^verbatim>\<open>ISOLATED_MAGIC\<close> is a macro of \<^verbatim>\<open>hide.hpp\<close>, which is not among the sources: it is the
  first parameter.
\<close>

definition validate :: "string \<Rightarrow> string \<Rightarrow> string \<Rightarrow> bool" where
  "validate magic pkg proc =
     (if str_eql pkg magic then validate_isolated_proc proc
      else validate_pkg pkg False \<and> validate_proc proc)"

text \<open>The grammar as the specification words it: allowed characters only.\<close>

definition validate_spec :: "string \<Rightarrow> string \<Rightarrow> string \<Rightarrow> bool" where
  "validate_spec magic pkg proc =
     (if pkg = magic
      then (\<forall>c \<in> set (takeWhile (\<lambda>c. c \<noteq> CHR '':'') proc).
              isalnum c \<or> c = CHR ''_'' \<or> c = CHR ''.'')
      else (\<forall>c \<in> set pkg. isalnum c \<or> c = CHR ''_'' \<or> c = CHR ''.'') \<and>
           (\<forall>c \<in> set proc. isalnum c \<or> c = CHR ''_'' \<or> c = CHR '':'' \<or> c = CHR ''.''))"

subsection \<open>Results\<close>

datatype status =
  DAEMON_SUCCESS | DAEMON_ERROR | HIDE_INVALID_PKG | HIDE_ITEM_EXIST
  | HIDE_ITEM_NOT_EXIST | HIDE_NO_NS

datatype fault = NullDeref | EndDeref

definition rbind :: "fault + 'a \<Rightarrow> ('a \<Rightarrow> fault + 'b) \<Rightarrow> fault + 'b" where
  "rbind r f = (case r of Inl e \<Rightarrow> Inl e | Inr x \<Rightarrow> f x)"

subsection \<open>State and environment\<close>

type_synonym pkg_map = "(string, string set) fmap"
type_synonym uid_map = "(int, string set) fmap"

text \<open>
  The globals of the file (the fields \<open>pkg_to_procs\<close> and \<open>app_id_to_pkgs\<close> are the
  pointers \<^verbatim>\<open>pkg_to_procs_\<close> and \<^verbatim>\<open>app_id_to_pkgs_\<close>), the rows of the \<^verbatim>\<open>hidelist\<close> table and the \<^verbatim>\<open>settings\<close> row of
  the persistent store, and the list of the processes sent \<^verbatim>\<open>SIGKILL\<close> so far.
\<close>

record hide_state =
  pkg_to_procs :: "pkg_map option"
  app_id_to_pkgs :: "uid_map option"
  hide_enabled :: bool
  pkg_xml_ino :: nat
  cached_manager_app_id :: int
  procfp :: bool
  db_hidelist :: "(string \<times> string) list"
  db_hide_config :: "bool option"
  killed :: "int list"

text \<open>
  What one operation observes outside the file.
  \<^item> \<open>app_data\<close>: the tree under \<^verbatim>\<open>APP_DATA_DIR\<close>, \<open>None\<close> when it cannot be opened; per
    user (in \<^verbatim>\<open>readdir\<close> order, without \<^verbatim>\<open>.\<close> and \<^verbatim>\<open>..\<close>) the entries of the user's
    directory, \<open>None\<close> when it cannot be opened as a directory; per entry its name and the
    owner \<^verbatim>\<open>st_uid\<close>, \<open>None\<close> when \<^verbatim>\<open>fstatat\<close> fails.
  \<^item> \<open>path_stat u p\<close>: what \<^verbatim>\<open>fstatat\<close> reports for the path \<^verbatim>\<open><u>/<p>\<close> when \<open>p\<close> is not the
    name of a listed entry of the user \<open>u\<close> (\<open>p\<close> is \<^verbatim>\<open>.\<close> or \<^verbatim>\<open>..\<close>, is empty or has a slash,
    or the directory of \<open>u\<close> could not be listed): the owner, \<open>None\<close> when the call fails.
  \<^item> \<open>procfs\<close>: the entries of \<^verbatim>\<open>/proc\<close> in \<^verbatim>\<open>readdir\<close> order: the number \<^verbatim>\<open>parse_int\<close> makes
    of the name, and the C string left in \<^verbatim>\<open>buf\<close> by reading \<^verbatim>\<open>/proc/<pid>/cmdline\<close>, \<open>None\<close>
    when the file cannot be opened.
  \<^item> \<open>packages_xml_ino\<close>: \<^verbatim>\<open>st.st_ino\<close> after \<^verbatim>\<open>stat\<close> of the package registry, \<open>0\<close> when
    \<^verbatim>\<open>stat\<close> fails (the structure is zero-initialised).
  \<^item> \<open>db_select_err\<close>: \<open>Some n\<close> when the \<^verbatim>\<open>SELECT\<close> fails after \<open>n\<close> rows were delivered.
  \<^item> \<open>to_app_id\<close>, \<open>ISOLATED_MAGIC\<close>, \<open>DEFAULT_MAX_LEN\<close> (the default argument of
    \<^verbatim>\<open>is_hide_target\<close>): macros and declarations of headers that are not among the sources.
\<close>

record world =
  ISOLATED_MAGIC :: string
  to_app_id :: "int \<Rightarrow> int"
  DEFAULT_MAX_LEN :: int
  SDK_INT :: int
  ns_mnt_ok :: bool
  proc_open_ok :: bool
  packages_xml_ino :: nat
  app_data :: "(string \<times> (string \<times> nat option) list option) list option"
  path_stat :: "string \<Rightarrow> string \<Rightarrow> nat option"
  procfs :: "(int \<times> string option) list"
  db_select_err :: "nat option"
  db_write_ok :: bool
  monitor_start_ok :: bool

subsection \<open>UidIndex maintenance\<close>

text \<open>\<^verbatim>\<open>app_id_to_pkgs[app_id].insert(pkg)\<close>: \<^verbatim>\<open>operator[]\<close> makes an empty bucket first.\<close>

definition bucket_insert :: "uid_map \<Rightarrow> int \<Rightarrow> string \<Rightarrow> uid_map" where
  "bucket_insert ix app_id pkg =
     fmupd app_id (insert pkg (case fmlookup ix app_id of None \<Rightarrow> {} | Some S \<Rightarrow> S)) ix"

text \<open>
  \<^verbatim>\<open>to_app_id(st.st_uid)\<close> after \<^verbatim>\<open>xfstatat\<close>: the structure is zero-initialised, so a failed
  call leaves owner 0.
\<close>

definition stat_app_id :: "(int \<Rightarrow> int) \<Rightarrow> nat option \<Rightarrow> int" where
  "stat_app_id f st = f (int (case st of None \<Rightarrow> 0 | Some uid \<Rightarrow> uid))"

text \<open>The inner loop of \<^verbatim>\<open>update_uid_map\<close>: the entries of one user's directory.\<close>

fun scan_user ::
  "(int \<Rightarrow> int) \<Rightarrow> pkg_map option \<Rightarrow> (string \<times> nat option) list \<Rightarrow> uid_map \<Rightarrow> fault + uid_map"
where
  "scan_user f mo [] ix = Inr ix"
| "scan_user f mo ((name, st) # es) ix =
     (let app_id = stat_app_id f st
      in if app_id |\<in>| fmdom ix then scan_user f mo es ix
         else (case mo of
                 None \<Rightarrow> Inl NullDeref
               | Some m \<Rightarrow>
                   if name |\<in>| fmdom m then scan_user f mo es (bucket_insert ix app_id name)
                   else scan_user f mo es ix))"

text \<open>The outer loop: the users.\<close>

fun scan_users ::
  "(int \<Rightarrow> int) \<Rightarrow> pkg_map option \<Rightarrow> (string \<times> (string \<times> nat option) list option) list
     \<Rightarrow> uid_map \<Rightarrow> fault + uid_map"
where
  "scan_users f mo [] ix = Inr ix"
| "scan_users f mo ((u, None) # us) ix = scan_users f mo us ix"
| "scan_users f mo ((u, Some es) # us) ix =
     rbind (scan_user f mo es ix) (scan_users f mo us)"

definition update_uid_map :: "world \<Rightarrow> hide_state \<Rightarrow> fault + hide_state" where
  "update_uid_map w s =
     (if pkg_xml_ino s = packages_xml_ino w then Inr s
      else
        let s1 = s\<lparr>pkg_xml_ino := packages_xml_ino w\<rparr>
        in (case app_id_to_pkgs s1 of
              None \<Rightarrow> Inl NullDeref
            | Some _ \<Rightarrow>
                let s2 = s1\<lparr>app_id_to_pkgs := Some fmempty, cached_manager_app_id := - 1\<rparr>
                in (case app_data w of
                      None \<Rightarrow> Inr s2
                    | Some users \<Rightarrow>
                        rbind (scan_users (to_app_id w) (pkg_to_procs s2) users fmempty)
                          (\<lambda>ix. Inr (s2\<lparr>app_id_to_pkgs := Some ix\<rparr>)))))"

text \<open>
  The loop of \<^verbatim>\<open>update_pkg_uid\<close>: the owner of \<^verbatim>\<open><user>/<pkg>\<close> for the first user where
  \<^verbatim>\<open>fstatat\<close> succeeds. For the name of a listed entry the call sees what the listing
  recorded; any other path is resolved by \<open>path_stat\<close>.
\<close>

fun find_pkg_dir ::
  "(string \<Rightarrow> string \<Rightarrow> nat option) \<Rightarrow> (string \<times> (string \<times> nat option) list option) list
     \<Rightarrow> string \<Rightarrow> nat option"
where
  "find_pkg_dir extra [] pkg = None"
| "find_pkg_dir extra ((u, es) # us) pkg =
     (case (case es of None \<Rightarrow> None | Some l \<Rightarrow> map_of l pkg) of
        Some st \<Rightarrow>
          (case st of
             Some uid \<Rightarrow> Some uid
           | None \<Rightarrow> find_pkg_dir extra us pkg)
      | None \<Rightarrow>
          (case extra u pkg of
             Some uid \<Rightarrow> Some uid
           | None \<Rightarrow> find_pkg_dir extra us pkg))"

definition update_pkg_uid :: "world \<Rightarrow> string \<Rightarrow> bool \<Rightarrow> hide_state \<Rightarrow> fault + hide_state" where
  "update_pkg_uid w pkg remove s =
     (case app_data w of
        None \<Rightarrow> Inr s
      | Some users \<Rightarrow>
          (case find_pkg_dir (path_stat w) users pkg of
             None \<Rightarrow> Inr s
           | Some uid \<Rightarrow>
               (case app_id_to_pkgs s of
                  None \<Rightarrow> Inl NullDeref
                | Some ix \<Rightarrow>
                    let app_id = to_app_id w (int uid)
                    in if remove
                       then (case fmlookup ix app_id of
                               None \<Rightarrow> Inr s
                             | Some S \<Rightarrow>
                                 if S - {pkg} = {}
                                 then Inr (s\<lparr>app_id_to_pkgs := Some (fmdrop app_id ix)\<rparr>)
                                 else Inr (s\<lparr>app_id_to_pkgs :=
                                             Some (fmupd app_id (S - {pkg}) ix)\<rparr>))
                       else Inr (s\<lparr>app_id_to_pkgs := Some (bucket_insert ix app_id pkg)\<rparr>))))"

subsection \<open>ProcessReaper\<close>

text \<open>
  \<^verbatim>\<open>crawl_procfs\<close>: the callback gets the entry and the list of kills so far, and returns
  whether to go on. Entries whose number is not positive are skipped.
\<close>

fun crawl_procfs ::
  "(int \<times> string option) list \<Rightarrow> ((int \<times> string option) \<Rightarrow> int list \<Rightarrow> bool \<times> int list)
     \<Rightarrow> int list \<Rightarrow> int list"
where
  "crawl_procfs [] fn ks = ks"
| "crawl_procfs (e # es) fn ks =
     (if fst e > 0
      then (case fn e ks of (go_on, ks') \<Rightarrow> if go_on then crawl_procfs es fn ks' else ks')
      else crawl_procfs es fn ks)"

definition proc_name_match ::
  "(string \<Rightarrow> string \<Rightarrow> bool) \<Rightarrow> (int \<times> string option) \<Rightarrow> string \<Rightarrow> bool"
where
  "proc_name_match str_op e name =
     (case snd e of None \<Rightarrow> False | Some buf \<Rightarrow> str_op buf name)"

text \<open>
  \<^verbatim>\<open>kill_process\<close>. The static \<^verbatim>\<open>procfp\<close> is rewound first: a null handle is a fault.
\<close>

definition kill_process ::
  "world \<Rightarrow> string \<Rightarrow> bool \<Rightarrow> ((int \<times> string option) \<Rightarrow> string \<Rightarrow> bool) \<Rightarrow> hide_state
     \<Rightarrow> fault + hide_state"
where
  "kill_process w name multi flt s =
     (if \<not> procfp s then Inl NullDeref
      else Inr (s\<lparr>killed :=
                   crawl_procfs (procfs w)
                     (\<lambda>e ks. if flt e name then (multi, ks @ [fst e]) else (True, ks))
                     (killed s)\<rparr>))"

subsection \<open>HideListStore mutation\<close>

text \<open>
  \<^verbatim>\<open>add_hide_set\<close>. When the \<^verbatim>\<open>emplace\<close> fails the package was present already, so
  \<^verbatim>\<open>operator[]\<close> has created nothing and the store is as before.
\<close>

definition add_hide_set ::
  "world \<Rightarrow> string \<Rightarrow> string \<Rightarrow> hide_state \<Rightarrow> fault + (bool \<times> hide_state)"
where
  "add_hide_set w pkg proc s =
     (case pkg_to_procs s of
        None \<Rightarrow> Inl NullDeref
      | Some m \<Rightarrow>
          let procs = (case fmlookup m pkg of None \<Rightarrow> {} | Some S \<Rightarrow> S)
          in if proc \<in> procs then Inr (False, s)
             else
               let s1 = s\<lparr>pkg_to_procs := Some (fmupd pkg (insert proc procs) m)\<rparr>
               in rbind
                    (if str_eql pkg (ISOLATED_MAGIC w)
                     then kill_process w proc True (proc_name_match str_starts) s1
                     else kill_process w proc False (proc_name_match str_eql) s1)
                    (\<lambda>s2. Inr (True, s2)))"

text \<open>The callback of the \<^verbatim>\<open>SELECT\<close> in \<^verbatim>\<open>init_list\<close>, row after row.\<close>

fun load_rows :: "world \<Rightarrow> (string \<times> string) list \<Rightarrow> hide_state \<Rightarrow> fault + hide_state" where
  "load_rows w [] s = Inr s"
| "load_rows w ((pkg, proc) # rows) s =
     rbind (add_hide_set w pkg proc s) (\<lambda>r. load_rows w rows (snd r))"

definition init_list :: "world \<Rightarrow> hide_state \<Rightarrow> fault + (bool \<times> hide_state)" where
  "init_list w s =
     (if pkg_to_procs s \<noteq> None then Inr (True, s)
      else
        let s1 = s\<lparr>pkg_to_procs := Some fmempty\<rparr>;
            rows = (case db_select_err w of
                      None \<Rightarrow> db_hidelist s
                    | Some n \<Rightarrow> take n (db_hidelist s))
        in rbind (load_rows w rows s1)
             (\<lambda>s2. if db_select_err w \<noteq> None then Inr (False, s2)
                   else rbind (update_uid_map w (s2\<lparr>app_id_to_pkgs := Some fmempty\<rparr>))
                          (\<lambda>s3. Inr (True, s3))))"

text \<open>
  \<^verbatim>\<open>add_hide_list\<close>. \<^verbatim>\<open>p.first\<close> is the iterator \<^verbatim>\<open>emplace\<close> returned, into the process set of
  the package, so \<^verbatim>\<open>update_pkg_uid(*p.first, false)\<close> is called with the process name. The
  \<^verbatim>\<open>INSERT\<close> appends the row when the store accepts it (the statement is assumed to fit its
  buffer of 4096 bytes).
\<close>

definition add_hide_list ::
  "world \<Rightarrow> string \<Rightarrow> string \<Rightarrow> hide_state \<Rightarrow> fault + (status \<times> hide_state)"
where
  "add_hide_list w pkg proc0 s =
     (let proc = (if proc0 = [] then pkg else proc0)
      in if \<not> validate (ISOLATED_MAGIC w) pkg proc then Inr (HIDE_INVALID_PKG, s)
         else
           rbind (init_list w s)
             (\<lambda>i. if \<not> fst i then Inr (DAEMON_ERROR, snd i)
                  else
                    rbind (add_hide_set w pkg proc (snd i))
                      (\<lambda>p. if \<not> fst p then Inr (HIDE_ITEM_EXIST, snd p)
                           else
                             rbind (update_pkg_uid w proc False (snd p))
                               (\<lambda>s3. if db_write_ok w
                                     then Inr (DAEMON_SUCCESS,
                                            s3\<lparr>db_hidelist := db_hidelist s3 @ [(pkg, proc)]\<rparr>)
                                     else Inr (DAEMON_ERROR, s3)))))"

text \<open>
  The locked block of \<^verbatim>\<open>rm_hide_list\<close>: the value of \<^verbatim>\<open>remove\<close> and the state.
  \<^verbatim>\<open>update_pkg_uid\<close> does not read the store, so the erasure is written after it.
\<close>

definition rm_hide_set ::
  "world \<Rightarrow> string \<Rightarrow> string \<Rightarrow> hide_state \<Rightarrow> fault + (bool \<times> hide_state)"
where
  "rm_hide_set w pkg proc s =
     (case pkg_to_procs s of
        None \<Rightarrow> Inl NullDeref
      | Some m \<Rightarrow>
          (case fmlookup m pkg of
             None \<Rightarrow> Inr (False, s)
           | Some S \<Rightarrow>
               if proc = []
               then rbind (update_pkg_uid w pkg True s)
                      (\<lambda>s2. Inr (True, s2\<lparr>pkg_to_procs := Some (fmdrop pkg m)\<rparr>))
               else if proc \<in> S
               then (if S - {proc} = {}
                     then rbind (update_pkg_uid w pkg True s)
                            (\<lambda>s2. Inr (True, s2\<lparr>pkg_to_procs := Some (fmdrop pkg m)\<rparr>))
                     else Inr (True, s\<lparr>pkg_to_procs := Some (fmupd pkg (S - {proc}) m)\<rparr>))
               else Inr (False, s)))"

definition rm_hide_list ::
  "world \<Rightarrow> string \<Rightarrow> string \<Rightarrow> hide_state \<Rightarrow> fault + (status \<times> hide_state)"
where
  "rm_hide_list w pkg proc s =
     rbind (init_list w s)
       (\<lambda>i. if \<not> fst i then Inr (DAEMON_ERROR, snd i)
            else
              rbind (rm_hide_set w pkg proc (snd i))
                (\<lambda>r. if \<not> fst r then Inr (HIDE_ITEM_NOT_EXIST, snd r)
                     else if db_write_ok w
                     then Inr (DAEMON_SUCCESS,
                            (snd r)\<lparr>db_hidelist :=
                               (if proc = []
                                then filter (\<lambda>row. fst row \<noteq> pkg) (db_hidelist (snd r))
                                else filter (\<lambda>row. row \<noteq> (pkg, proc)) (db_hidelist (snd r)))\<rparr>)
                     else Inr (DAEMON_ERROR, snd r)))"

subsection \<open>LifecycleController\<close>

text \<open>\<^verbatim>\<open>update_hide_config\<close>: a failure of the write is only logged.\<close>

definition update_hide_config :: "world \<Rightarrow> hide_state \<Rightarrow> hide_state" where
  "update_hide_config w s =
     (if db_write_ok w then s\<lparr>db_hide_config := Some (hide_enabled s)\<rparr> else s)"

text \<open>The three sweeps of Android Q and later.\<close>

definition zygote_sweep :: "world \<Rightarrow> hide_state \<Rightarrow> fault + hide_state" where
  "zygote_sweep w s = kill_process w ''_zygote'' True (proc_name_match str_ends_safe) s"

definition launch_sweeps :: "world \<Rightarrow> hide_state \<Rightarrow> fault + hide_state" where
  "launch_sweeps w s =
     (if SDK_INT w \<ge> 29
      then rbind (kill_process w ''usap32'' True (proc_name_match str_eql) s)
             (\<lambda>s1. rbind (kill_process w ''usap64'' True (proc_name_match str_eql) s1)
                     (zygote_sweep w))
      else Inr s)"

text \<open>
  \<^verbatim>\<open>launch_magiskhide\<close>. Hiding the system properties and the monitor thread itself are
  outside this file; \<open>monitor_start_ok\<close> is whether \<^verbatim>\<open>new_daemon_thread\<close> returned 0.
\<close>

definition launch_magiskhide ::
  "world \<Rightarrow> bool \<Rightarrow> hide_state \<Rightarrow> fault + (status \<times> hide_state)"
where
  "launch_magiskhide w late_props s =
     (if hide_enabled s then Inr (DAEMON_SUCCESS, s)
      else if \<not> ns_mnt_ok w then Inr (HIDE_NO_NS, s)
      else if \<not> procfp s \<and> \<not> proc_open_ok w then Inr (DAEMON_ERROR, s)
      else
        rbind (init_list w (s\<lparr>procfp := True, hide_enabled := True\<rparr>))
          (\<lambda>i. if \<not> fst i then Inr (DAEMON_ERROR, (snd i)\<lparr>hide_enabled := False\<rparr>)
               else
                 rbind (launch_sweeps w (snd i))
                   (\<lambda>s3. if \<not> monitor_start_ok w then Inr (DAEMON_ERROR, s3)
                         else rbind (update_uid_map w s3)
                                (\<lambda>s4. Inr (DAEMON_SUCCESS, update_hide_config w s4)))))"

definition stop_magiskhide :: "world \<Rightarrow> hide_state \<Rightarrow> status \<times> hide_state" where
  "stop_magiskhide w s =
     (let s1 = (if hide_enabled s then s\<lparr>pkg_to_procs := None, app_id_to_pkgs := None\<rparr> else s)
      in (DAEMON_SUCCESS, update_hide_config w (s1\<lparr>hide_enabled := False\<rparr>)))"

subsection \<open>MatchEngine\<close>

text \<open>
  \<^verbatim>\<open>s.length() > max_len\<close> compares a \<^verbatim>\<open>size_t\<close> with an \<^verbatim>\<open>int\<close>: the \<^verbatim>\<open>int\<close> is converted
  to \<^verbatim>\<open>size_t\<close> (64 bits), so a negative bound becomes a huge one.
\<close>

definition exceeds :: "string \<Rightarrow> int \<Rightarrow> bool" where
  "exceeds s max_len = (int (length s) > max_len mod 2 ^ 64)"

text \<open>The body of the two loops of the sandboxed-worker regime, for one pattern \<open>p\<close>.\<close>

definition isolated_match :: "int \<Rightarrow> string \<Rightarrow> string \<Rightarrow> bool" where
  "isolated_match max_len process p =
     ((exceeds p max_len \<and> exceeds process max_len \<and> str_starts p process)
      \<or> str_starts process p)"

text \<open>The body of the last loop of the normal regime, for one package name \<open>p\<close>.\<close>

definition pkg_name_match :: "int \<Rightarrow> string \<Rightarrow> string \<Rightarrow> bool" where
  "pkg_name_match max_len process p =
     ((exceeds p max_len \<and> exceeds process max_len \<and> str_starts p process)
      \<or> p = process)"

text \<open>
  The first loop of the normal regime, over the owned packages in the order of the set:
  \<^verbatim>\<open>pkg_to_procs.find(pkg)->second.count(process)\<close>. A package that is not a key of the store
  makes the code dereference the end iterator, unless a smaller package has already
  returned true.
\<close>

definition owned_procs_hit :: "pkg_map option \<Rightarrow> string set \<Rightarrow> string \<Rightarrow> fault + bool" where
  "owned_procs_hit mo pkgs process =
     (let hit = (\<lambda>q. case mo of
                        None \<Rightarrow> False
                      | Some m \<Rightarrow> (case fmlookup m q of None \<Rightarrow> False | Some S \<Rightarrow> process \<in> S));
          bad = (\<lambda>q. case mo of None \<Rightarrow> True | Some m \<Rightarrow> fmlookup m q = None)
      in if \<exists>q \<in> pkgs. bad q \<and> (\<forall>r \<in> pkgs. r < q \<longrightarrow> \<not> hit r)
         then Inl (if mo = None then NullDeref else EndDeref)
         else Inr (\<exists>q \<in> pkgs. hit q))"

definition is_hide_target ::
  "world \<Rightarrow> int \<Rightarrow> string \<Rightarrow> int \<Rightarrow> hide_state \<Rightarrow> fault + (bool \<times> hide_state)"
where
  "is_hide_target w uid process max_len s =
     rbind (init_list w s)
       (\<lambda>i. if \<not> fst i then Inr (False, snd i)
            else
              rbind (update_uid_map w (snd i))
                (\<lambda>s2.
                   if to_app_id w uid \<ge> 90000
                   then
                     (case pkg_to_procs s2 of
                        None \<Rightarrow> Inl NullDeref
                      | Some m \<Rightarrow>
                          if (case fmlookup m (ISOLATED_MAGIC w) of
                                None \<Rightarrow> False
                              | Some S \<Rightarrow> \<exists>p \<in> S. isolated_match max_len process p)
                          then Inr (True, s2)
                          else
                            (case app_id_to_pkgs s2 of
                               None \<Rightarrow> Inl NullDeref
                             | Some ix \<Rightarrow>
                                 Inr ((case fmlookup ix (- 1) of
                                         None \<Rightarrow> False
                                       | Some S \<Rightarrow> \<exists>p \<in> S. isolated_match max_len process p),
                                      s2)))
                   else
                     (case app_id_to_pkgs s2 of
                        None \<Rightarrow> Inl NullDeref
                      | Some ix \<Rightarrow>
                          (case fmlookup ix (to_app_id w uid) of
                             None \<Rightarrow> Inr (False, s2)
                           | Some pkgs \<Rightarrow>
                               rbind (owned_procs_hit (pkg_to_procs s2) pkgs process)
                                 (\<lambda>h. Inr (h \<or> (\<exists>p \<in> pkgs. pkg_name_match max_len process p),
                                            s2))))))"

text \<open>
  \<^verbatim>\<open>check_uid_map\<close>: the identity and the process name are read from the client only when
  the feature is enabled.
\<close>

definition check_uid_map ::
  "world \<Rightarrow> int \<Rightarrow> string \<Rightarrow> hide_state \<Rightarrow> fault + (int \<times> hide_state)"
where
  "check_uid_map w uid process s =
     (if \<not> hide_enabled s then Inr (0, s)
      else rbind (is_hide_target w uid process (DEFAULT_MAX_LEN w) s)
             (\<lambda>r. Inr (if fst r then 1 else 0, snd r)))"

subsection \<open>Notions the properties are stated with\<close>

text \<open>The directory entries in the order in which \<^verbatim>\<open>update_uid_map\<close> meets them.\<close>

fun walk :: "(string \<times> (string \<times> nat option) list option) list \<Rightarrow> (string \<times> nat option) list" where
  "walk [] = []"
| "walk ((u, None) # us) = walk us"
| "walk ((u, Some es) # us) = es @ walk us"

text \<open>
  The rebuild as the specification words it: every directory of a hidden package is
  associated with the identity of its owner, unless an earlier user has resolved that
  identity already (first user wins). \<open>seen\<close> is the index as the earlier users left it.
\<close>

fun scan_user_spec ::
  "(int \<Rightarrow> int) \<Rightarrow> pkg_map \<Rightarrow> uid_map \<Rightarrow> (string \<times> nat option) list \<Rightarrow> uid_map \<Rightarrow> uid_map"
where
  "scan_user_spec f m seen [] ix = ix"
| "scan_user_spec f m seen ((name, st) # es) ix =
     (if stat_app_id f st |\<in>| fmdom seen then scan_user_spec f m seen es ix
      else if name |\<in>| fmdom m
      then scan_user_spec f m seen es (bucket_insert ix (stat_app_id f st) name)
      else scan_user_spec f m seen es ix)"

fun scan_users_spec ::
  "(int \<Rightarrow> int) \<Rightarrow> pkg_map \<Rightarrow> (string \<times> (string \<times> nat option) list option) list
     \<Rightarrow> uid_map \<Rightarrow> uid_map"
where
  "scan_users_spec f m [] ix = ix"
| "scan_users_spec f m ((u, None) # us) ix = scan_users_spec f m us ix"
| "scan_users_spec f m ((u, Some es) # us) ix =
     scan_users_spec f m us (scan_user_spec f m ix es ix)"

text \<open>
  The patterns the sandboxed-worker regime consults: the process set of the
  sandboxed-worker package and the bucket of identity \<open>-1\<close>.
\<close>

definition isolated_patterns :: "world \<Rightarrow> hide_state \<Rightarrow> string set" where
  "isolated_patterns w s =
     (case pkg_to_procs s of
        None \<Rightarrow> {}
      | Some m \<Rightarrow> (case fmlookup m (ISOLATED_MAGIC w) of None \<Rightarrow> {} | Some S \<Rightarrow> S))
     \<union>
     (case app_id_to_pkgs s of
        None \<Rightarrow> {}
      | Some ix \<Rightarrow> (case fmlookup ix (- 1) of None \<Rightarrow> {} | Some S \<Rightarrow> S))"

text \<open>
  The matching rule as the specification words it: in both clauses the process name is
  a prefix of the pattern.
\<close>

definition isolated_match_spec :: "int \<Rightarrow> string \<Rightarrow> string \<Rightarrow> bool" where
  "isolated_match_spec max_len process p =
     ((exceeds p max_len \<and> exceeds process max_len \<and> prefix process p)
      \<or> prefix process p)"

text \<open>The process set of a package, empty when the package is not a key.\<close>

definition procs_of :: "pkg_map \<Rightarrow> string \<Rightarrow> string set" where
  "procs_of m pkg = (case fmlookup m pkg of None \<Rightarrow> {} | Some S \<Rightarrow> S)"

text \<open>The in-memory part of the state: everything but the persistent store.\<close>

definition in_memory ::
  "hide_state \<Rightarrow> pkg_map option \<times> uid_map option \<times> bool \<times> nat \<times> int \<times> bool \<times> int list"
where
  "in_memory s =
     (pkg_to_procs s, app_id_to_pkgs s, hide_enabled s, pkg_xml_ino s,
      cached_manager_app_id s, procfp s, killed s)"

text \<open>Every package of every bucket of the index is a key of the store.\<close>

definition index_in_store :: "hide_state \<Rightarrow> bool" where
  "index_in_store s =
     (case app_id_to_pkgs s of
        None \<Rightarrow> True
      | Some ix \<Rightarrow>
          let keys = (case pkg_to_procs s of None \<Rightarrow> {} | Some m \<Rightarrow> fmdom' m)
          in fBall (fmdom ix)
               (\<lambda>a. case fmlookup ix a of None \<Rightarrow> True | Some pkgs \<Rightarrow> pkgs \<subseteq> keys))"

subsection \<open>A concrete scenario\<close>

text \<open>
  One device: a single user \<^verbatim>\<open>0\<close> with three installed packages, two of them sharing an
  owner; Android 11; app identities are the remainder of the identity by 100000, with the
  sign of the identity as the \<^verbatim>\<open>%\<close> of C has it; no path outside the listing resolves.
\<close>

definition device :: world where
  "device =
     \<lparr>ISOLATED_MAGIC = ''isolated'',
      to_app_id = (\<lambda>uid. sgn uid * (\<bar>uid\<bar> mod 100000)),
      DEFAULT_MAX_LEN = 1024,
      SDK_INT = 30,
      ns_mnt_ok = True,
      proc_open_ok = True,
      packages_xml_ino = 7,
      app_data = Some [(''0'', Some [(''com.a'', Some 10001), (''com.b'', Some 10001),
                                     (''com.c'', Some 10002)])],
      path_stat = (\<lambda>u p. None),
      procfs = [(1, Some ''init''), (200, Some ''webview_zygote''),
                (201, Some ''com.a_zygote''), (300, Some ''com.evil''),
                (301, Some ''com.evil''), (400, Some ''worker:1''),
                (401, Some ''worker:2''), (402, None)],
      db_select_err = None,
      db_write_ok = True,
      monitor_start_ok = True\<rparr>"

text \<open>The state of a daemon that has just started.\<close>

definition fresh :: hide_state where
  "fresh =
     \<lparr>pkg_to_procs = None, app_id_to_pkgs = None, hide_enabled = False, pkg_xml_ino = 0,
      cached_manager_app_id = - 1, procfp = False, db_hidelist = [], db_hide_config = None,
      killed = []\<rparr>"

text \<open>An enabled engine hiding \<^verbatim>\<open>com.a\<close> and one sandboxed-worker pattern.\<close>

definition running :: hide_state where
  "running =
     \<lparr>pkg_to_procs = Some (fmupd ''isolated'' {''com.a:sandboxed_process''}
                            (fmupd ''com.a'' {''com.a''} fmempty)),
      app_id_to_pkgs = Some (fmupd 10001 {''com.a''} fmempty),
      hide_enabled = True, pkg_xml_ino = 7, cached_manager_app_id = - 1, procfp = True,
      db_hidelist = [(''com.a'', ''com.a''), (''isolated'', ''com.a:sandboxed_process'')],
      db_hide_config = Some True, killed = []\<rparr>"

text \<open>
  An engine hiding \<^verbatim>\<open>com.a\<close> and \<^verbatim>\<open>com.b\<close>, which share an owner on the device, with a
  stale registry fingerprint.
\<close>

definition shared :: hide_state where
  "shared =
     \<lparr>pkg_to_procs = Some (fmupd ''com.b'' {''com.b''} (fmupd ''com.a'' {''com.a''} fmempty)),
      app_id_to_pkgs = Some (fmupd 10001 {''com.a'', ''com.b''} fmempty),
      hide_enabled = True, pkg_xml_ino = 6, cached_manager_app_id = 10050, procfp = True,
      db_hidelist = [(''com.a'', ''com.a''), (''com.b'', ''com.b'')],
      db_hide_config = Some True, killed = []\<rparr>"

text \<open>
  An engine enabled on the device over a persistent store that holds the row
  (\<^verbatim>\<open>android\<close>, \<^verbatim>\<open>android\<close>), a package name without a dot.
\<close>

definition legacy :: hide_state where
  "legacy =
     \<lparr>pkg_to_procs = Some (fmupd ''android'' {''android''} fmempty),
      app_id_to_pkgs = Some fmempty,
      hide_enabled = True, pkg_xml_ino = 7, cached_manager_app_id = - 1, procfp = True,
      db_hidelist = [(''android'', ''android'')],
      db_hide_config = Some True, killed = [201]\<rparr>"

text \<open>
  The state a failed \<^verbatim>\<open>init_list\<close> leaves behind when \<^verbatim>\<open>launch_magiskhide\<close> runs on a
  daemon that has just started and the \<^verbatim>\<open>SELECT\<close> fails at once.
\<close>

definition half_built :: hide_state where
  "half_built =
     \<lparr>pkg_to_procs = Some fmempty, app_id_to_pkgs = None, hide_enabled = False, pkg_xml_ino = 0,
      cached_manager_app_id = - 1, procfp = True, db_hidelist = [], db_hide_config = None,
      killed = []\<rparr>"

text \<open>The device after \<^verbatim>\<open>com.a\<close> was uninstalled: its data directory is gone.\<close>

definition uninstalled :: world where
  "uninstalled =
     device\<lparr>app_data := Some [(''0'', Some [(''com.b'', Some 10001), (''com.c'', Some 10002)])]\<rparr>"

text \<open>
  The engine \<open>running\<close> once \<^verbatim>\<open>com.a\<close> has left the store while the index was not touched.
\<close>

definition orphaned :: hide_state where
  "orphaned =
     \<lparr>pkg_to_procs = Some (fmupd ''isolated'' {''com.a:sandboxed_process''} fmempty),
      app_id_to_pkgs = Some (fmupd 10001 {''com.a''} fmempty),
      hide_enabled = True, pkg_xml_ino = 7, cached_manager_app_id = - 1, procfp = True,
      db_hidelist = [(''isolated'', ''com.a:sandboxed_process'')],
      db_hide_config = Some True, killed = []\<rparr>"

text \<open>
  The engine \<open>running\<close> once the process name \<^verbatim>\<open>com.b\<close> (also the name of an installed
  package that is not hidden) has been added to the package \<^verbatim>\<open>com.a\<close>.
\<close>

definition crossed :: hide_state where
  "crossed =
     \<lparr>pkg_to_procs = Some (fmupd ''com.a'' {''com.a'', ''com.b''}
                            (fmupd ''isolated'' {''com.a:sandboxed_process''}
                              (fmupd ''com.a'' {''com.a''} fmempty))),
      app_id_to_pkgs = Some (fmupd 10001 {''com.a'', ''com.b''} fmempty),
      hide_enabled = True, pkg_xml_ino = 7, cached_manager_app_id = - 1, procfp = True,
      db_hidelist = [(''com.a'', ''com.a''), (''isolated'', ''com.a:sandboxed_process''),
                     (''com.a'', ''com.b'')],
      db_hide_config = Some True, killed = []\<rparr>"

text \<open>
  An engine that was enabled on the device and stopped again, over a persistent store that
  holds the row (\<^verbatim>\<open>com.evil\<close>, \<^verbatim>\<open>com.evil\<close>): the pointers are null, the process table is
  still open and the registry fingerprint is still cached.
\<close>

definition stopped :: hide_state where
  "stopped =
     \<lparr>pkg_to_procs = None, app_id_to_pkgs = None, hide_enabled = False, pkg_xml_ino = 7,
      cached_manager_app_id = - 1, procfp = True,
      db_hidelist = [(''com.evil'', ''com.evil'')],
      db_hide_config = Some False, killed = []\<rparr>"

section \<open>Properties\<close>

subsection \<open>Unfolding the engine\<close>

lemmas engine_defs =
  add_hide_list_def rm_hide_list_def rm_hide_set_def add_hide_set_def init_list_def
  update_pkg_uid_def update_uid_map_def kill_process_def proc_name_match_def rbind_def
  validate_def str_eql_def str_starts_def isalnum_def bucket_insert_def Let_def

lemmas launch_defs =
  launch_magiskhide_def launch_sweeps_def zygote_sweep_def update_hide_config_def
  str_ends_safe_def str_ends_def suffix_def stat_app_id_def

subsection \<open>The process reaper\<close>

lemma crawl_multi:
  "crawl_procfs ps (\<lambda>e ks. if P e then (True, ks @ [fst e]) else (True, ks)) ks0
     = ks0 @ map fst (filter (\<lambda>e. fst e > 0 \<and> P e) ps)"
  by (induction ps arbitrary: ks0) auto

lemma crawl_single:
  "crawl_procfs ps (\<lambda>e ks. if P e then (False, ks @ [fst e]) else (True, ks)) ks0
     = ks0 @ (case find (\<lambda>e. fst e > 0 \<and> P e) ps of None \<Rightarrow> [] | Some e \<Rightarrow> [fst e])"
  by (induction ps arbitrary: ks0) auto

lemma kill_process_multi:
  "procfp s \<Longrightarrow>
   kill_process w name True flt s
     = Inr (s\<lparr>killed := killed s @ map fst (filter (\<lambda>e. fst e > 0 \<and> flt e name) (procfs w))\<rparr>)"
  by (simp add: kill_process_def crawl_multi)

lemma kill_process_single:
  "procfp s \<Longrightarrow>
   kill_process w name False flt s
     = Inr (s\<lparr>killed := killed s @
              (case find (\<lambda>e. fst e > 0 \<and> flt e name) (procfs w) of
                 None \<Rightarrow> [] | Some e \<Rightarrow> [fst e])\<rparr>)"
  by (simp add: kill_process_def crawl_single)

subsection \<open>What the operations leave alone\<close>

lemma kill_process_ptrs:
  "kill_process w name multi flt s = Inr s' \<Longrightarrow>
   pkg_to_procs s' = pkg_to_procs s \<and> app_id_to_pkgs s' = app_id_to_pkgs s \<and>
   hide_enabled s' = hide_enabled s"
  by (auto simp: kill_process_def split: if_splits)

lemma launch_sweeps_ptrs:
  "launch_sweeps w s = Inr s' \<Longrightarrow>
   pkg_to_procs s' = pkg_to_procs s \<and> app_id_to_pkgs s' = app_id_to_pkgs s \<and>
   hide_enabled s' = hide_enabled s"
  by (auto simp: launch_sweeps_def zygote_sweep_def rbind_def dest!: kill_process_ptrs
      split: if_splits sum.splits)

lemma update_uid_map_ptrs:
  "update_uid_map w s = Inr s' \<Longrightarrow>
   pkg_to_procs s' = pkg_to_procs s \<and> (app_id_to_pkgs s' = None \<longleftrightarrow> app_id_to_pkgs s = None) \<and>
   hide_enabled s' = hide_enabled s"
  by (auto simp: update_uid_map_def rbind_def Let_def split: if_splits option.splits sum.splits)

lemma add_hide_set_ptrs:
  "add_hide_set w pkg proc s = Inr (b, s') \<Longrightarrow>
   pkg_to_procs s' \<noteq> None \<and> app_id_to_pkgs s' = app_id_to_pkgs s \<and>
   hide_enabled s' = hide_enabled s"
  by (auto simp: add_hide_set_def rbind_def Let_def dest!: kill_process_ptrs
      split: option.splits if_splits sum.splits)

lemma load_rows_ptrs:
  "load_rows w rows s = Inr s' \<Longrightarrow> pkg_to_procs s \<noteq> None \<Longrightarrow>
   pkg_to_procs s' \<noteq> None \<and> app_id_to_pkgs s' = app_id_to_pkgs s \<and>
   hide_enabled s' = hide_enabled s"
proof (induction rows arbitrary: s)
  case Nil
  then show ?case by simp
next
  case (Cons row rows)
  obtain pkg proc where row: "row = (pkg, proc)" by (cases row)
  from Cons.prems(1) row obtain b s1 where
    one: "add_hide_set w pkg proc s = Inr (b, s1)" and rest: "load_rows w rows s1 = Inr s'"
    by (auto simp: rbind_def split: sum.splits)
  from add_hide_set_ptrs [OF one] Cons.IH [OF rest] show ?case by simp
qed

lemma init_list_builds_both:
  assumes "init_list w s = Inr (True, s')" "pkg_to_procs s = None"
  shows "pkg_to_procs s' \<noteq> None \<and> app_id_to_pkgs s' \<noteq> None \<and> hide_enabled s' = hide_enabled s"
proof -
  let ?rows = "case db_select_err w of None \<Rightarrow> db_hidelist s | Some n \<Rightarrow> take n (db_hidelist s)"
  from assms obtain s2 where
    l: "load_rows w ?rows (s\<lparr>pkg_to_procs := Some fmempty\<rparr>) = Inr s2" and
    u: "update_uid_map w (s2\<lparr>app_id_to_pkgs := Some fmempty\<rparr>) = Inr s'"
    by (auto simp: init_list_def rbind_def Let_def split: if_splits sum.splits)
  from load_rows_ptrs [OF l] update_uid_map_ptrs [OF u] show ?thesis by simp
qed

lemma init_list_store:
  "init_list w s = Inr (True, t) \<Longrightarrow> pkg_to_procs t \<noteq> None"
  using init_list_builds_both [of w s t] by (cases "pkg_to_procs s") (auto simp: init_list_def)

subsection \<open>The enable-time sweep\<close>

text \<open>
  Claim C10. The filter of the \<^verbatim>\<open>_zygote\<close> sweep is false for a process whose command line
  is exactly \<^verbatim>\<open>webview_zygote\<close>. With an open process table the sweep returns, every process
  it kills has a command line that ends with \<^verbatim>\<open>_zygote\<close> and is not \<^verbatim>\<open>webview_zygote\<close>, and
  so (process numbers being distinct) a process named \<^verbatim>\<open>webview_zygote\<close> is never among the
  killed, whatever the live processes are.
\<close>

theorem zygote_sweep_spares_webview:
  "\<not> proc_name_match str_ends_safe (pid, Some ''webview_zygote'') ''_zygote'' \<and>
   (procfp s \<longrightarrow>
      (\<exists>ks. zygote_sweep w s = Inr (s\<lparr>killed := killed s @ ks\<rparr>) \<and>
            (\<forall>k \<in> set ks. \<exists>name. (k, Some name) \<in> set (procfs w) \<and>
                                 name \<noteq> ''webview_zygote'' \<and> str_ends name ''_zygote'') \<and>
            (distinct (map fst (procfs w)) \<longrightarrow> (pid, Some ''webview_zygote'') \<in> set (procfs w)
               \<longrightarrow> pid \<notin> set ks)))"
proof (intro conjI impI)
  show "\<not> proc_name_match str_ends_safe (pid, Some ''webview_zygote'') ''_zygote''"
    by (simp add: proc_name_match_def str_ends_safe_def)
next
  assume open_: "procfp s"
  let ?flt = "\<lambda>e. fst e > 0 \<and> proc_name_match str_ends_safe e ''_zygote''"
  let ?ks = "map fst (filter ?flt (procfs w))"
  have run: "zygote_sweep w s = Inr (s\<lparr>killed := killed s @ ?ks\<rparr>)"
    using open_ by (simp add: zygote_sweep_def kill_process_multi)
  have names: "\<forall>k \<in> set ?ks. \<exists>name. (k, Some name) \<in> set (procfs w) \<and>
                 name \<noteq> ''webview_zygote'' \<and> str_ends name ''_zygote''"
  proof
    fix k assume "k \<in> set ?ks"
    then obtain e where e: "e \<in> set (procfs w)" "?flt e" "k = fst e" by auto
    from e(2) obtain name where n: "snd e = Some name" "str_ends_safe name ''_zygote''"
      by (auto simp: proc_name_match_def split: option.splits)
    from n(2) have ok: "name \<noteq> ''webview_zygote''" "str_ends name ''_zygote''"
      by (auto simp: str_ends_safe_def split: if_splits)
    have "e = (k, Some name)"
      using e(3) n(1) by (cases e) simp
    with e(1) have "(k, Some name) \<in> set (procfs w)"
      by simp
    with ok show "\<exists>name. (k, Some name) \<in> set (procfs w) \<and>
                 name \<noteq> ''webview_zygote'' \<and> str_ends name ''_zygote''" by blast
  qed
  have spared: "distinct (map fst (procfs w)) \<longrightarrow> (pid, Some ''webview_zygote'') \<in> set (procfs w)
               \<longrightarrow> pid \<notin> set ?ks"
  proof (intro impI notI)
    assume d: "distinct (map fst (procfs w))"
      and m: "(pid, Some ''webview_zygote'') \<in> set (procfs w)"
      and k: "pid \<in> set ?ks"
    from names k obtain name where
      n: "(pid, Some name) \<in> set (procfs w)" "name \<noteq> ''webview_zygote''" by blast
    from d m n(1) have "Some name = Some ''webview_zygote''"
      by (meson eq_key_imp_eq_value)
    with n(2) show False by simp
  qed
  from run names spared
  show "\<exists>ks. zygote_sweep w s = Inr (s\<lparr>killed := killed s @ ks\<rparr>) \<and>
            (\<forall>k \<in> set ks. \<exists>name. (k, Some name) \<in> set (procfs w) \<and>
                                 name \<noteq> ''webview_zygote'' \<and> str_ends name ''_zygote'') \<and>
            (distinct (map fst (procfs w)) \<longrightarrow> (pid, Some ''webview_zygote'') \<in> set (procfs w)
               \<longrightarrow> pid \<notin> set ks)"
    by blast
qed

text \<open>
  On the device of the scenario the sweep kills process 201 (\<^verbatim>\<open>com.a_zygote\<close>) and spares
  process 200 (\<^verbatim>\<open>webview_zygote\<close>).
\<close>

theorem zygote_sweep_spares_webview_witness:
  "procfp running \<and> distinct (map fst (procfs device)) \<and>
   (200, Some ''webview_zygote'') \<in> set (procfs device) \<and>
   (\<exists>ks. zygote_sweep device running = Inr (running\<lparr>killed := killed running @ ks\<rparr>) \<and>
         201 \<in> set ks \<and> 200 \<notin> set ks)"
proof -
  have a: "procfp running" by (simp add: running_def)
  have b: "distinct (map fst (procfs device))" by (simp add: device_def)
  have c: "(200, Some ''webview_zygote'') \<in> set (procfs device)" by (simp add: device_def)
  have d: "zygote_sweep device running = Inr (running\<lparr>killed := killed running @ [201]\<rparr>)"
    by (simp add: zygote_sweep_def kill_process_def device_def running_def
        proc_name_match_def str_ends_safe_def str_ends_def suffix_def)
  from zygote_sweep_spares_webview [of 200 running device] a b c
  obtain ks where run: "zygote_sweep device running = Inr (running\<lparr>killed := killed running @ ks\<rparr>)"
    and "200 \<notin> set ks" by blast
  with d have "ks = [201]" by (simp add: running_def)
  with a b c run show ?thesis by auto
qed

subsection \<open>The membership probe\<close>

text \<open>
  Claim C8. With the enabled flag false, \<^verbatim>\<open>check_uid_map\<close> returns 0 for every identity and
  process name and leaves the whole state as it was (no lazy initialisation, no refresh, no
  lookup, and no fault even on a store that was never built). With the flag true it runs
  \<^verbatim>\<open>is_hide_target\<close> and returns 1 or 0 as that returns true or false.
\<close>

theorem check_uid_map_gate:
  "(\<not> hide_enabled s \<longrightarrow> check_uid_map w uid process s = Inr (0, s)) \<and>
   (hide_enabled s \<and> is_hide_target w uid process (DEFAULT_MAX_LEN w) s = Inr (b, s')
      \<longrightarrow> check_uid_map w uid process s = Inr (if b then 1 else 0, s')) \<and>
   (hide_enabled s \<and> is_hide_target w uid process (DEFAULT_MAX_LEN w) s = Inl f
      \<longrightarrow> check_uid_map w uid process s = Inl f)"
  by (simp add: check_uid_map_def rbind_def)

theorem check_uid_map_gate_witness:
  "\<not> hide_enabled fresh \<and> check_uid_map device 10001 ''com.a'' fresh = Inr (0, fresh) \<and>
   hide_enabled running \<and>
   is_hide_target device 10001 ''com.a'' (DEFAULT_MAX_LEN device) running = Inr (True, running) \<and>
   check_uid_map device 10001 ''com.a'' running = Inr (1, running) \<and>
   is_hide_target device 10001 ''com.x'' (DEFAULT_MAX_LEN device) running = Inr (False, running) \<and>
   check_uid_map device 10001 ''com.x'' running = Inr (0, running)"
proof -
  have off: "\<not> hide_enabled fresh" by (simp add: fresh_def)
  have on: "hide_enabled running" by (simp add: running_def)
  have hit: "is_hide_target device 10001 ''com.a'' (DEFAULT_MAX_LEN device) running
               = Inr (True, running)"
    by (simp add: is_hide_target_def init_list_def update_uid_map_def rbind_def device_def
        running_def owned_procs_hit_def)
  have miss: "is_hide_target device 10001 ''com.x'' (DEFAULT_MAX_LEN device) running
               = Inr (False, running)"
    by (simp add: is_hide_target_def init_list_def update_uid_map_def rbind_def device_def
        running_def owned_procs_hit_def pkg_name_match_def exceeds_def)
  from check_uid_map_gate [where s = fresh and w = device and uid = 10001
      and process = "''com.a''"] off
  have r0: "check_uid_map device 10001 ''com.a'' fresh = Inr (0, fresh)" by simp
  from check_uid_map_gate [where s = running and w = device and uid = 10001
      and process = "''com.a''" and b = True and s' = running] on hit
  have r1: "check_uid_map device 10001 ''com.a'' running = Inr (1, running)" by simp
  from check_uid_map_gate [where s = running and w = device and uid = 10001
      and process = "''com.x''" and b = False and s' = running] on miss
  have r2: "check_uid_map device 10001 ''com.x'' running = Inr (0, running)" by simp
  from off on hit miss r0 r1 r2 show ?thesis by simp
qed

subsection \<open>The validator\<close>

lemma isalnum_punct [simp]:
  "\<not> isalnum CHR ''.''" "\<not> isalnum CHR ''_''" "\<not> isalnum CHR '':''" "\<not> isalnum CHR '' ''"
  by (simp_all add: isalnum_def)

lemma validate_isolated_proc_iff:
  "validate_isolated_proc proc \<longleftrightarrow>
     (\<forall>c \<in> set (takeWhile (\<lambda>c. c \<noteq> CHR '':'') proc).
        isalnum c \<or> c = CHR ''_'' \<or> c = CHR ''.'')"
  by (induction proc) auto

lemma validate_pkg_iff:
  "validate_pkg pkg v \<longleftrightarrow>
     (\<forall>c \<in> set pkg. isalnum c \<or> c = CHR ''_'' \<or> c = CHR ''.'') \<and> (v \<or> CHR ''.'' \<in> set pkg)"
  by (induction pkg arbitrary: v) auto

lemma validate_proc_iff:
  "validate_proc proc \<longleftrightarrow>
     (\<forall>c \<in> set proc. isalnum c \<or> c = CHR ''_'' \<or> c = CHR '':'' \<or> c = CHR ''.'')"
  by (induction proc) auto

text \<open>
  Claim C6, as stated, fails: \<^verbatim>\<open>comfoo\<close> is made of allowed characters only, so the grammar
  of the claim accepts the pair (\<^verbatim>\<open>comfoo\<close>, \<^verbatim>\<open>comfoo\<close>), but \<^verbatim>\<open>validate\<close> rejects it:
  \<^verbatim>\<open>pkg_valid\<close> starts false and only a dot sets it.
\<close>

theorem validate_spec_counterexample:
  "validate_spec ''isolated'' ''comfoo'' ''comfoo'' \<and> \<not> validate ''isolated'' ''comfoo'' ''comfoo''"
  by (simp add: validate_spec_def validate_def str_eql_def isalnum_def)

text \<open>
  Claim C6, amended. \<^verbatim>\<open>validate\<close> returns true exactly when: for a normal package, the
  package consists of alphanumeric, underscore and dot characters only and contains at least
  one dot, and the process name consists of alphanumeric, underscore, colon and dot
  characters only; for the sandboxed-worker token, the characters of the process name before
  its first colon (all of them when there is none) are alphanumeric, underscore or dot.
  So \<^verbatim>\<open>com.foo.bar\<close> with \<^verbatim>\<open>com.foo.bar:remote\<close> is accepted, \<^verbatim>\<open>com foo\<close> is rejected, a
  sandboxed-worker process name with a space before its colon is rejected, and the token
  with \<^verbatim>\<open>worker\<close> is accepted.
\<close>

theorem validate_grammar:
  "validate magic pkg proc =
     (if pkg = magic
      then (\<forall>c \<in> set (takeWhile (\<lambda>c. c \<noteq> CHR '':'') proc).
              isalnum c \<or> c = CHR ''_'' \<or> c = CHR ''.'')
      else (\<forall>c \<in> set pkg. isalnum c \<or> c = CHR ''_'' \<or> c = CHR ''.'') \<and>
           CHR ''.'' \<in> set pkg \<and>
           (\<forall>c \<in> set proc. isalnum c \<or> c = CHR ''_'' \<or> c = CHR '':'' \<or> c = CHR ''.''))
   \<and> validate magic ''com.foo.bar'' ''com.foo.bar:remote''
   \<and> (magic \<noteq> ''com foo'' \<longrightarrow> \<not> validate magic ''com foo'' proc')
   \<and> (CHR '' '' \<in> set (takeWhile (\<lambda>c. c \<noteq> CHR '':'') proc'') \<longrightarrow> \<not> validate magic magic proc'')
   \<and> validate magic magic ''worker''"
proof -
  have main: "\<And>pkg proc. validate magic pkg proc =
     (if pkg = magic
      then (\<forall>c \<in> set (takeWhile (\<lambda>c. c \<noteq> CHR '':'') proc).
              isalnum c \<or> c = CHR ''_'' \<or> c = CHR ''.'')
      else (\<forall>c \<in> set pkg. isalnum c \<or> c = CHR ''_'' \<or> c = CHR ''.'') \<and>
           CHR ''.'' \<in> set pkg \<and>
           (\<forall>c \<in> set proc. isalnum c \<or> c = CHR ''_'' \<or> c = CHR '':'' \<or> c = CHR ''.''))"
    by (auto simp: validate_def str_eql_def validate_isolated_proc_iff validate_pkg_iff
        validate_proc_iff)
  have e1: "validate magic ''com.foo.bar'' ''com.foo.bar:remote''"
    by (simp add: validate_def str_eql_def isalnum_def)
  have e2: "magic \<noteq> ''com foo'' \<longrightarrow> \<not> validate magic ''com foo'' proc'"
    by (simp add: validate_def str_eql_def isalnum_def)
  have e3: "CHR '' '' \<in> set (takeWhile (\<lambda>c. c \<noteq> CHR '':'') proc'') \<longrightarrow> \<not> validate magic magic proc''"
    unfolding main using isalnum_punct(4) by (auto intro!: bexI [where x = "CHR '' ''"])
  have e4: "validate magic magic ''worker''"
    by (simp add: validate_def str_eql_def isalnum_def)
  from main [of pkg proc] e1 e2 e3 e4 show ?thesis by blast
qed

theorem validate_grammar_witness:
  "validate ''isolated'' ''com.foo.bar'' ''com.foo.bar:remote'' \<and>
   \<not> validate ''isolated'' ''comfoo'' ''comfoo'' \<and>
   ''isolated'' \<noteq> ''com foo'' \<and> \<not> validate ''isolated'' ''com foo'' ''com foo'' \<and>
   CHR '' '' \<in> set (takeWhile (\<lambda>c. c \<noteq> CHR '':'') ''my worker:3'') \<and>
   \<not> validate ''isolated'' ''isolated'' ''my worker:3'' \<and>
   validate ''isolated'' ''isolated'' ''worker''"
  using validate_grammar [of "''isolated''" "''comfoo''" "''comfoo''" "''com foo''" "''my worker:3''"]
  by (simp add: isalnum_def)

subsection \<open>The walk of the app-data tree\<close>

lemma scan_user_append:
  "scan_user f mo (es @ es') ix = rbind (scan_user f mo es ix) (scan_user f mo es')"
  by (induction es arbitrary: ix) (auto simp: rbind_def Let_def split: option.splits)

lemma scan_users_walk: "scan_users f mo us ix = scan_user f mo (walk us) ix"
proof (induction us arbitrary: ix)
  case Nil
  show ?case by simp
next
  case (Cons u us)
  obtain name es where u: "u = (name, es)" by (cases u)
  show ?case
  proof (cases es)
    case None
    with u Cons show ?thesis by simp
  next
    case (Some l)
    with u Cons show ?thesis
      by (simp add: scan_user_append rbind_def split: sum.splits)
  qed
qed

lemma scan_user_first:
  "\<exists>ix'. scan_user f (Some m) es ix = Inr ix' \<and>
     (\<forall>a. fmlookup ix' a =
        (if a |\<in>| fmdom ix then fmlookup ix a
         else (case find (\<lambda>e. stat_app_id f (snd e) = a \<and> fst e |\<in>| fmdom m) es of
                 None \<Rightarrow> None
               | Some e \<Rightarrow> Some {fst e})))"
proof (induction es arbitrary: ix)
  case Nil
  show ?case by (auto simp: fmdom_notD)
next
  case (Cons e es)
  obtain name st where e: "e = (name, st)" by (cases e)
  let ?a = "stat_app_id f st"
  show ?case
  proof (cases "?a |\<in>| fmdom ix")
    case True
    with Cons [of ix] e show ?thesis by (auto simp: Let_def)
  next
    case out: False
    show ?thesis
    proof (cases "name |\<in>| fmdom m")
      case False
      with out Cons [of ix] e show ?thesis by (auto simp: Let_def)
    next
      case True
      from out have none: "fmlookup ix ?a = None" by (simp add: fmdom_notD)
      from Cons [of "bucket_insert ix ?a name"] obtain ix' where
        run: "scan_user f (Some m) es (bucket_insert ix ?a name) = Inr ix'" and
        look: "\<And>a. fmlookup ix' a =
          (if a |\<in>| fmdom (bucket_insert ix ?a name) then fmlookup (bucket_insert ix ?a name) a
           else (case find (\<lambda>e. stat_app_id f (snd e) = a \<and> fst e |\<in>| fmdom m) es of
                   None \<Rightarrow> None
                 | Some e \<Rightarrow> Some {fst e}))"
        by blast
      from out True e run have "scan_user f (Some m) (e # es) ix = Inr ix'"
        by (simp add: Let_def)
      moreover have "\<forall>a. fmlookup ix' a =
        (if a |\<in>| fmdom ix then fmlookup ix a
         else (case find (\<lambda>e. stat_app_id f (snd e) = a \<and> fst e |\<in>| fmdom m) (e # es) of
                 None \<Rightarrow> None
               | Some e \<Rightarrow> Some {fst e}))"
        using out True e none by (auto simp: look bucket_insert_def)
      ultimately show ?thesis by blast
    qed
  qed
qed

lemma update_uid_map_total:
  assumes "pkg_to_procs s = Some m" "app_id_to_pkgs s = Some ix"
  shows "\<exists>s2 ix2. update_uid_map w s = Inr s2 \<and> pkg_to_procs s2 = Some m \<and>
           app_id_to_pkgs s2 = Some ix2 \<and> hide_enabled s2 = hide_enabled s \<and>
           procfp s2 = procfp s \<and> killed s2 = killed s \<and> db_hidelist s2 = db_hidelist s"
proof (cases "pkg_xml_ino s = packages_xml_ino w")
  case True
  with assms show ?thesis by (simp add: update_uid_map_def)
next
  case False
  show ?thesis
  proof (cases "app_data w")
    case None
    with False assms show ?thesis by (simp add: update_uid_map_def)
  next
    case (Some users)
    from scan_user_first [of "to_app_id w" m "walk users" fmempty] obtain ix' where
      "scan_users (to_app_id w) (Some m) users fmempty = Inr ix'"
      by (auto simp: scan_users_walk)
    with Some False assms show ?thesis
      by (simp add: update_uid_map_def rbind_def)
  qed
qed

lemma init_list_built: "pkg_to_procs s = Some m \<Longrightarrow> init_list w s = Inr (True, s)"
  by (simp add: init_list_def)

subsection \<open>The sandboxed-worker regime\<close>

lemma exceeds_nonneg:
  "0 \<le> max_len \<Longrightarrow> max_len < 2 ^ 64 \<Longrightarrow> exceeds s max_len \<longleftrightarrow> int (length s) > max_len"
  by (simp add: exceeds_def)

lemma exceeds_negative:
  "max_len < 0 \<Longrightarrow> - (2 ^ 31) \<le> max_len \<Longrightarrow> length s < 2 ^ 63 \<Longrightarrow> \<not> exceeds s max_len"
proof -
  assume a: "max_len < 0" "- (2 ^ 31) \<le> max_len" "length s < 2 ^ 63"
  have "(max_len + 2 ^ 64) mod 2 ^ 64 = max_len + 2 ^ 64"
    using a(1,2) by (intro mod_pos_pos_trivial) auto
  then have "max_len mod 2 ^ 64 = max_len + 2 ^ 64"
    by simp
  moreover have "int (length s) < 2 ^ 63" using a(3) by (simp add: of_nat_less_numeral_power_cancel_iff)
  ultimately show ?thesis using a(2) by (simp add: exceeds_def)
qed

text \<open>
  Claim C1, as stated, fails. Its clause (ii) accepts a pattern of which the process name is
  a prefix, whatever the lengths; the code accepts that only when both are longer than
  \<open>max_len\<close>, and what it accepts regardless of length is a pattern that is a prefix of the
  process name. With the pattern \<^verbatim>\<open>com.a:sandboxed_process\<close> stored and \<open>max_len = 1024\<close>: the
  truncated name \<^verbatim>\<open>com.a:sandboxed_proces\<close> matches by the claim's rule and is not a target;
  the suffixed name \<^verbatim>\<open>com.a:sandboxed_process77\<close> does not match by the claim's rule and is a
  target.
\<close>

theorem isolated_match_spec_counterexample:
  "isolated_patterns device running = {''com.a:sandboxed_process''} \<and>
   is_hide_target device 99001 ''com.a:sandboxed_proces'' 1024 running = Inr (False, running) \<and>
   isolated_match_spec 1024 ''com.a:sandboxed_proces'' ''com.a:sandboxed_process'' \<and>
   is_hide_target device 99001 ''com.a:sandboxed_process77'' 1024 running = Inr (True, running) \<and>
   \<not> isolated_match_spec 1024 ''com.a:sandboxed_process77'' ''com.a:sandboxed_process''"
  by (simp add: is_hide_target_def init_list_def update_uid_map_def rbind_def device_def
      running_def isolated_patterns_def isolated_match_spec_def isolated_match_def
      exceeds_def str_starts_def)

text \<open>
  Claim C1, amended. On an initialised engine, for a query whose app identity is at least
  90000, \<^verbatim>\<open>is_hide_target\<close> refreshes the index and returns true if and only if some
  pattern \<open>p\<close> of the sandboxed-worker package's process set or of the bucket of identity
  \<open>-1\<close> satisfies: (i) both \<open>p\<close> and the process name are longer than \<open>max_len\<close> and the process
  name is a prefix of \<open>p\<close>, or (ii) \<open>p\<close> is a prefix of the process name, whatever the
  lengths. In particular a pattern that the process name truncates (a proper prefix of it)
  matches only when both are longer than \<open>max_len\<close>; when they are not, the pattern has to
  be a prefix of the process name (equality is not required).
\<close>

theorem is_hide_target_isolated:
  assumes "pkg_to_procs s = Some m" and "app_id_to_pkgs s = Some ix"
    and "to_app_id w uid \<ge> 90000"
  shows "\<exists>s2. update_uid_map w s = Inr s2 \<and>
           is_hide_target w uid process max_len s =
             Inr ((\<exists>p \<in> isolated_patterns w s2.
                     (exceeds p max_len \<and> exceeds process max_len \<and> prefix process p)
                     \<or> prefix p process), s2) \<and>
           (\<forall>p. strict_prefix process p \<longrightarrow>
                  (isolated_match max_len process p
                     \<longleftrightarrow> exceeds p max_len \<and> exceeds process max_len)) \<and>
           (\<forall>p. \<not> (exceeds p max_len \<and> exceeds process max_len) \<longrightarrow>
                  (isolated_match max_len process p \<longleftrightarrow> prefix p process))"
proof -
  from update_uid_map_total [OF assms(1,2), of w] obtain s2 ix2 where
    s2: "update_uid_map w s = Inr s2" "pkg_to_procs s2 = Some m" "app_id_to_pkgs s2 = Some ix2"
    by blast
  have "is_hide_target w uid process max_len s =
          Inr ((\<exists>p \<in> isolated_patterns w s2.
                     (exceeds p max_len \<and> exceeds process max_len \<and> prefix process p)
                     \<or> prefix p process), s2)"
    using assms s2
    by (auto simp: is_hide_target_def init_list_built rbind_def isolated_patterns_def
        isolated_match_def str_starts_def split: option.splits)
  moreover have "\<forall>p. strict_prefix process p \<longrightarrow>
                  (isolated_match max_len process p
                     \<longleftrightarrow> exceeds p max_len \<and> exceeds process max_len)"
    by (auto simp: isolated_match_def str_starts_def strict_prefix_def)
  moreover have "\<forall>p. \<not> (exceeds p max_len \<and> exceeds process max_len) \<longrightarrow>
                  (isolated_match max_len process p \<longleftrightarrow> prefix p process)"
    by (auto simp: isolated_match_def str_starts_def)
  ultimately show ?thesis using s2(1) by blast
qed

theorem is_hide_target_isolated_witness:
  "pkg_to_procs running \<noteq> None \<and> app_id_to_pkgs running \<noteq> None \<and>
   to_app_id device 99001 \<ge> 90000 \<and>
   is_hide_target device 99001 ''com.a:sandboxed_proces'' 5 running = Inr (True, running) \<and>
   is_hide_target device 99001 ''com.a:sandboxed_proces'' 1024 running = Inr (False, running) \<and>
   is_hide_target device 99001 ''com.a:sandboxed_process:7'' 1024 running = Inr (True, running)"
proof -
  have a: "pkg_to_procs running = Some (fmupd ''isolated'' {''com.a:sandboxed_process''}
                            (fmupd ''com.a'' {''com.a''} fmempty))"
    by (simp add: running_def)
  have b: "app_id_to_pkgs running = Some (fmupd 10001 {''com.a''} fmempty)"
    by (simp add: running_def)
  have c: "to_app_id device 99001 \<ge> 90000" by (simp add: device_def)
  have r: "update_uid_map device running = Inr running"
    by (simp add: update_uid_map_def device_def running_def)
  have pats: "isolated_patterns device running = {''com.a:sandboxed_process''}"
    by (simp add: isolated_patterns_def device_def running_def)
  from is_hide_target_isolated [OF a b c, of "''com.a:sandboxed_proces''" 5] r pats
  have t1: "is_hide_target device 99001 ''com.a:sandboxed_proces'' 5 running = Inr (True, running)"
    by (simp add: exceeds_def)
  from is_hide_target_isolated [OF a b c, of "''com.a:sandboxed_proces''" 1024] r pats
  have t2: "is_hide_target device 99001 ''com.a:sandboxed_proces'' 1024 running
              = Inr (False, running)"
    by (simp add: exceeds_def)
  from is_hide_target_isolated [OF a b c, of "''com.a:sandboxed_process:7''" 1024] r pats
  have t3: "is_hide_target device 99001 ''com.a:sandboxed_process:7'' 1024 running
              = Inr (True, running)"
    by (simp add: exceeds_def)
  from a b c t1 t2 t3 show ?thesis by simp
qed

subsection \<open>The refresh of the index\<close>

lemma update_uid_map_ino:
  "update_uid_map w s = Inr s1 \<Longrightarrow> pkg_xml_ino s1 = packages_xml_ino w"
  by (auto simp: update_uid_map_def rbind_def Let_def split: if_splits option.splits sum.splits)

lemma update_uid_map_rebuild:
  assumes "pkg_xml_ino s \<noteq> packages_xml_ino w" "pkg_to_procs s = Some m"
    "app_id_to_pkgs s = Some ix"
  shows "\<exists>ix'. update_uid_map w s =
                   Inr (s\<lparr>pkg_xml_ino := packages_xml_ino w, cached_manager_app_id := - 1,
                          app_id_to_pkgs := Some ix'\<rparr>) \<and>
                (\<forall>a. fmlookup ix' a =
                   (case find (\<lambda>e. stat_app_id (to_app_id w) (snd e) = a \<and> fst e |\<in>| fmdom m)
                           (case app_data w of None \<Rightarrow> [] | Some users \<Rightarrow> walk users) of
                      None \<Rightarrow> None
                    | Some e \<Rightarrow> Some {fst e}))"
proof -
  let ?es = "case app_data w of None \<Rightarrow> [] | Some users \<Rightarrow> walk users"
  from scan_user_first [of "to_app_id w" m ?es fmempty] obtain ix' where
    run: "scan_user (to_app_id w) (Some m) ?es fmempty = Inr ix'" and
    look: "\<forall>a. fmlookup ix' a =
             (case find (\<lambda>e. stat_app_id (to_app_id w) (snd e) = a \<and> fst e |\<in>| fmdom m) ?es of
                None \<Rightarrow> None
              | Some e \<Rightarrow> Some {fst e})"
    by auto
  have "update_uid_map w s =
          Inr (s\<lparr>pkg_xml_ino := packages_xml_ino w, cached_manager_app_id := - 1,
                 app_id_to_pkgs := Some ix'\<rparr>)"
  proof (cases "app_data w")
    case None
    with run have "ix' = fmempty" by simp
    with None assms show ?thesis by (simp add: update_uid_map_def)
  next
    case (Some users)
    with run have "scan_users (to_app_id w) (Some m) users fmempty = Inr ix'"
      by (simp add: scan_users_walk)
    with Some assms show ?thesis by (simp add: update_uid_map_def rbind_def)
  qed
  with look show ?thesis by blast
qed

text \<open>
  The gate and the rebuild, for every state and world. When the inode of the registry file
  equals the cached one, \<^verbatim>\<open>update_uid_map\<close> changes nothing; so a second refresh after any
  refresh that returned, under the same inode, changes nothing. When the inode differs (on
  an initialised engine), it stores the new inode, resets the cached manager identity to
  \<open>-1\<close> and replaces the index by the result of one walk of the tree (empty when the tree
  cannot be opened): the bucket of an identity holds the first directory in walk order
  that is owned by that identity and is the name of a hidden package, and nothing else.
\<close>

theorem update_uid_map_gated:
  "(pkg_xml_ino s = packages_xml_ino w \<longrightarrow> update_uid_map w s = Inr s) \<and>
   (update_uid_map w s = Inr r \<and> packages_xml_ino w' = packages_xml_ino w
      \<longrightarrow> update_uid_map w' r = Inr r) \<and>
   (pkg_xml_ino s \<noteq> packages_xml_ino w \<and> pkg_to_procs s = Some m \<and> app_id_to_pkgs s = Some ix
      \<longrightarrow> (\<exists>ix'. update_uid_map w s =
                   Inr (s\<lparr>pkg_xml_ino := packages_xml_ino w, cached_manager_app_id := - 1,
                          app_id_to_pkgs := Some ix'\<rparr>) \<and>
                (\<forall>a. fmlookup ix' a =
                   (case find (\<lambda>e. stat_app_id (to_app_id w) (snd e) = a \<and> fst e |\<in>| fmdom m)
                           (case app_data w of None \<Rightarrow> [] | Some users \<Rightarrow> walk users) of
                      None \<Rightarrow> None
                    | Some e \<Rightarrow> Some {fst e}))))"
proof (intro conjI impI)
  assume "pkg_xml_ino s = packages_xml_ino w"
  then show "update_uid_map w s = Inr s" by (simp add: update_uid_map_def)
next
  assume a: "update_uid_map w s = Inr r \<and> packages_xml_ino w' = packages_xml_ino w"
  then have "pkg_xml_ino r = packages_xml_ino w'"
    using update_uid_map_ino [of w s r] by simp
  then show "update_uid_map w' r = Inr r" by (simp add: update_uid_map_def)
next
  assume a: "pkg_xml_ino s \<noteq> packages_xml_ino w \<and> pkg_to_procs s = Some m \<and>
             app_id_to_pkgs s = Some ix"
  then show "\<exists>ix'. update_uid_map w s =
                   Inr (s\<lparr>pkg_xml_ino := packages_xml_ino w, cached_manager_app_id := - 1,
                          app_id_to_pkgs := Some ix'\<rparr>) \<and>
                (\<forall>a. fmlookup ix' a =
                   (case find (\<lambda>e. stat_app_id (to_app_id w) (snd e) = a \<and> fst e |\<in>| fmdom m)
                           (case app_data w of None \<Rightarrow> [] | Some users \<Rightarrow> walk users) of
                      None \<Rightarrow> None
                    | Some e \<Rightarrow> Some {fst e}))"
    using update_uid_map_rebuild [of s w m ix] by blast
qed

theorem update_uid_map_gated_instance:
  "pkg_xml_ino running = packages_xml_ino device \<and> update_uid_map device running = Inr running \<and>
   pkg_xml_ino shared \<noteq> packages_xml_ino device \<and>
   pkg_to_procs shared \<noteq> None \<and> app_id_to_pkgs shared \<noteq> None \<and>
   (\<exists>s1 ix'. update_uid_map device shared = Inr s1 \<and> app_id_to_pkgs s1 = Some ix' \<and>
       fmlookup ix' 10001 = Some {''com.a''} \<and> fmlookup ix' 10002 = None \<and>
       cached_manager_app_id s1 = - 1 \<and> pkg_xml_ino s1 = 7 \<and>
       update_uid_map device s1 = Inr s1)"
proof -
  have same: "pkg_xml_ino running = packages_xml_ino device"
    by (simp add: running_def device_def)
  with update_uid_map_gated [of running device]
  have noop: "update_uid_map device running = Inr running" by blast
  have diff: "pkg_xml_ino shared \<noteq> packages_xml_ino device"
    by (simp add: shared_def device_def)
  have m: "pkg_to_procs shared
             = Some (fmupd ''com.b'' {''com.b''} (fmupd ''com.a'' {''com.a''} fmempty))"
    by (simp add: shared_def)
  have ix: "app_id_to_pkgs shared = Some (fmupd 10001 {''com.a'', ''com.b''} fmempty)"
    by (simp add: shared_def)
  from update_uid_map_gated [where s = shared and w = device
      and m = "fmupd ''com.b'' {''com.b''} (fmupd ''com.a'' {''com.a''} fmempty)"
      and ix = "fmupd 10001 {''com.a'', ''com.b''} fmempty"] diff m ix
  obtain ix' where
    run: "update_uid_map device shared =
            Inr (shared\<lparr>pkg_xml_ino := packages_xml_ino device, cached_manager_app_id := - 1,
                        app_id_to_pkgs := Some ix'\<rparr>)" and
    look: "\<forall>a. fmlookup ix' a =
             (case find (\<lambda>e. stat_app_id (to_app_id device) (snd e) = a \<and>
                             fst e |\<in>| fmdom (fmupd ''com.b'' {''com.b''}
                                               (fmupd ''com.a'' {''com.a''} fmempty)))
                     (case app_data device of None \<Rightarrow> [] | Some users \<Rightarrow> walk users) of
                None \<Rightarrow> None
              | Some e \<Rightarrow> Some {fst e})"
    by blast
  let ?s1 = "shared\<lparr>pkg_xml_ino := packages_xml_ino device, cached_manager_app_id := - 1,
                     app_id_to_pkgs := Some ix'\<rparr>"
  from look have l1: "fmlookup ix' 10001 = Some {''com.a''}"
    by (simp add: device_def stat_app_id_def)
  from look have l2: "fmlookup ix' 10002 = None"
    by (simp add: device_def stat_app_id_def)
  from update_uid_map_gated [where s = shared and w = device and r = ?s1 and w' = device] run
  have again: "update_uid_map device ?s1 = Inr ?s1" by blast
  have ino: "pkg_xml_ino ?s1 = 7" by (simp add: device_def)
  from same noop diff m ix run l1 l2 again ino show ?thesis
    by (intro conjI exI [of _ ?s1] exI [of _ ix']) simp_all
qed

text \<open>
  Claim C5: the refresh is a no-op under an unchanged registry inode, and under a changed
  one it clears the index, resets the cached manager identity and rebuilds the index,
  associating each hidden package's directory with the identity of its owner, the first
  user winning per identity. The gate, the reset and the idempotence are as claimed (the
  theorem above). The rebuild is not: it skips every directory whose identity has a
  bucket already, also a directory of the same user. The code on the device, where the
  hidden packages \<^verbatim>\<open>com.a\<close> and \<^verbatim>\<open>com.b\<close> are directories of one user with one owner: adding
  \<^verbatim>\<open>com.b\<close> puts it into the bucket of 10001 beside \<^verbatim>\<open>com.a\<close>, and it is a hide target; after
  the registry file has changed the rebuild leaves only \<^verbatim>\<open>com.a\<close> in the bucket, and \<^verbatim>\<open>com.b\<close>
  is no hide target any more. The rebuild as the claim words it keeps both.
\<close>

theorem update_uid_map_drops_shared_owner:
  "add_hide_list (device\<lparr>packages_xml_ino := 6\<rparr>) ''com.b'' []
     (shared\<lparr>pkg_to_procs := Some (fmupd ''com.a'' {''com.a''} fmempty),
             app_id_to_pkgs := Some (fmupd 10001 {''com.a''} fmempty),
             db_hidelist := [(''com.a'', ''com.a'')]\<rparr>)
     = Inr (DAEMON_SUCCESS, shared) \<and>
   is_hide_target (device\<lparr>packages_xml_ino := 6\<rparr>) 10001 ''com.b'' 1024 shared
     = Inr (True, shared) \<and>
   update_uid_map device shared =
     Inr (shared\<lparr>pkg_xml_ino := 7, cached_manager_app_id := - 1,
                 app_id_to_pkgs := Some (fmupd 10001 {''com.a''} fmempty)\<rparr>) \<and>
   is_hide_target device 10001 ''com.b'' 1024 shared =
     Inr (False, shared\<lparr>pkg_xml_ino := 7, cached_manager_app_id := - 1,
                        app_id_to_pkgs := Some (fmupd 10001 {''com.a''} fmempty)\<rparr>) \<and>
   scan_users_spec (to_app_id device)
     (fmupd ''com.b'' {''com.b''} (fmupd ''com.a'' {''com.a''} fmempty))
     [(''0'', Some [(''com.a'', Some 10001), (''com.b'', Some 10001), (''com.c'', Some 10002)])]
     fmempty
     = fmupd 10001 {''com.a'', ''com.b''} fmempty"
  by (simp add: engine_defs is_hide_target_def owned_procs_hit_def pkg_name_match_def
      exceeds_def device_def shared_def stat_app_id_def insert_commute)

subsection \<open>Failure of the persistent write\<close>

text \<open>No function before the write looks at its outcome, and none touches the rows.\<close>

lemma kill_process_write [simp]:
  "kill_process (w\<lparr>db_write_ok := b\<rparr>) name multi flt s = kill_process w name multi flt s"
  by (simp add: kill_process_def)

lemma add_hide_set_write [simp]:
  "add_hide_set (w\<lparr>db_write_ok := b\<rparr>) pkg proc s = add_hide_set w pkg proc s"
  by (simp add: add_hide_set_def Let_def split: option.splits)

lemma load_rows_write [simp]:
  "load_rows (w\<lparr>db_write_ok := b\<rparr>) rows s = load_rows w rows s"
  by (induction rows arbitrary: s) auto

lemma update_uid_map_write [simp]:
  "update_uid_map (w\<lparr>db_write_ok := b\<rparr>) s = update_uid_map w s"
  by (simp add: update_uid_map_def Let_def split: option.splits)

lemma init_list_write [simp]:
  "init_list (w\<lparr>db_write_ok := b\<rparr>) s = init_list w s"
  by (simp add: init_list_def Let_def split: option.splits cong: if_cong)

lemma update_pkg_uid_write [simp]:
  "update_pkg_uid (w\<lparr>db_write_ok := b\<rparr>) pkg rm s = update_pkg_uid w pkg rm s"
  by (simp add: update_pkg_uid_def Let_def split: option.splits)

lemma rm_hide_set_write [simp]:
  "rm_hide_set (w\<lparr>db_write_ok := b\<rparr>) pkg proc s = rm_hide_set w pkg proc s"
  by (simp add: rm_hide_set_def split: option.splits)

lemma kill_process_db: "kill_process w name multi flt s = Inr s' \<Longrightarrow> db_hidelist s' = db_hidelist s"
  by (auto simp: kill_process_def split: if_splits)

lemma add_hide_set_db: "add_hide_set w pkg proc s = Inr (b, s') \<Longrightarrow> db_hidelist s' = db_hidelist s"
  by (auto simp: add_hide_set_def rbind_def Let_def dest!: kill_process_db
      split: option.splits if_splits sum.splits)

lemma load_rows_db: "load_rows w rows s = Inr s' \<Longrightarrow> db_hidelist s' = db_hidelist s"
proof (induction rows arbitrary: s)
  case Nil
  then show ?case by simp
next
  case (Cons row rows)
  obtain pkg proc where row: "row = (pkg, proc)" by (cases row)
  from Cons.prems row obtain b s1 where
    one: "add_hide_set w pkg proc s = Inr (b, s1)" and rest: "load_rows w rows s1 = Inr s'"
    by (auto simp: rbind_def split: sum.splits)
  from Cons.IH [OF rest] add_hide_set_db [OF one] show ?case by simp
qed

lemma update_uid_map_db: "update_uid_map w s = Inr s' \<Longrightarrow> db_hidelist s' = db_hidelist s"
  by (auto simp: update_uid_map_def rbind_def Let_def split: if_splits option.splits sum.splits)

lemma init_list_db: "init_list w s = Inr (b, s') \<Longrightarrow> db_hidelist s' = db_hidelist s"
  by (auto simp: init_list_def rbind_def Let_def dest!: load_rows_db update_uid_map_db
      split: if_splits sum.splits)

lemma update_pkg_uid_db: "update_pkg_uid w pkg rm s = Inr s' \<Longrightarrow> db_hidelist s' = db_hidelist s"
  by (auto simp: update_pkg_uid_def Let_def split: if_splits option.splits)

lemma rm_hide_set_db: "rm_hide_set w pkg proc s = Inr (b, s') \<Longrightarrow> db_hidelist s' = db_hidelist s"
  by (auto simp: rm_hide_set_def rbind_def dest!: update_pkg_uid_db
      split: if_splits option.splits sum.splits)

text \<open>
  Claim C7. Take an \<^verbatim>\<open>add_hide_list\<close> or \<^verbatim>\<open>rm_hide_list\<close> call that succeeds when the write to
  the persistent store succeeds (so its in-memory change was made). The same call in the
  same world with a failing write returns \<^verbatim>\<open>DAEMON_ERROR\<close>, its in-memory state (store,
  index, flags, kills) equals the one after the successful call, and the rows of the
  persistent store are as before the call.
\<close>

theorem write_failure_keeps_memory:
  assumes "\<not> db_write_ok w"
  shows "(add_hide_list (w\<lparr>db_write_ok := True\<rparr>) pkg proc s = Inr (DAEMON_SUCCESS, s_add)
            \<longrightarrow> (\<exists>s_err. add_hide_list w pkg proc s = Inr (DAEMON_ERROR, s_err) \<and>
                    in_memory s_err = in_memory s_add \<and> db_hidelist s_err = db_hidelist s)) \<and>
         (rm_hide_list (w\<lparr>db_write_ok := True\<rparr>) pkg proc s = Inr (DAEMON_SUCCESS, s_rm)
            \<longrightarrow> (\<exists>s_err. rm_hide_list w pkg proc s = Inr (DAEMON_ERROR, s_err) \<and>
                    in_memory s_err = in_memory s_rm \<and> db_hidelist s_err = db_hidelist s))"
proof (intro conjI impI)
  let ?p = "if proc = [] then pkg else proc"
  assume ok: "add_hide_list (w\<lparr>db_write_ok := True\<rparr>) pkg proc s = Inr (DAEMON_SUCCESS, s_add)"
  then obtain s1 s2 s3 where
    i: "init_list w s = Inr (True, s1)" and
    a: "add_hide_set w pkg ?p s1 = Inr (True, s2)" and
    u: "update_pkg_uid w ?p False s2 = Inr s3" and
    v: "validate (ISOLATED_MAGIC w) pkg ?p" and
    r: "s_add = s3\<lparr>db_hidelist := db_hidelist s3 @ [(pkg, ?p)]\<rparr>"
    by (auto simp: add_hide_list_def rbind_def Let_def split: if_splits sum.splits)
  from i a u v assms have "add_hide_list w pkg proc s = Inr (DAEMON_ERROR, s3)"
    by (simp add: add_hide_list_def rbind_def Let_def)
  moreover from r have "in_memory s3 = in_memory s_add" by (simp add: in_memory_def)
  moreover from init_list_db [OF i] add_hide_set_db [OF a] update_pkg_uid_db [OF u]
  have "db_hidelist s3 = db_hidelist s" by simp
  ultimately show "\<exists>s_err. add_hide_list w pkg proc s = Inr (DAEMON_ERROR, s_err) \<and>
                    in_memory s_err = in_memory s_add \<and> db_hidelist s_err = db_hidelist s"
    by blast
next
  assume ok: "rm_hide_list (w\<lparr>db_write_ok := True\<rparr>) pkg proc s = Inr (DAEMON_SUCCESS, s_rm)"
  then obtain s1 s2 where
    i: "init_list w s = Inr (True, s1)" and
    a: "rm_hide_set w pkg proc s1 = Inr (True, s2)" and
    r: "in_memory s_rm = in_memory s2"
    by (auto simp: rm_hide_list_def rbind_def in_memory_def split: if_splits sum.splits)
  from i a assms have "rm_hide_list w pkg proc s = Inr (DAEMON_ERROR, s2)"
    by (simp add: rm_hide_list_def rbind_def)
  moreover from init_list_db [OF i] rm_hide_set_db [OF a]
  have "db_hidelist s2 = db_hidelist s" by simp
  ultimately show "\<exists>s_err. rm_hide_list w pkg proc s = Inr (DAEMON_ERROR, s_err) \<and>
                    in_memory s_err = in_memory s_rm \<and> db_hidelist s_err = db_hidelist s"
    using r by auto
qed

theorem write_failure_keeps_memory_witness:
  "\<not> db_write_ok (device\<lparr>db_write_ok := False\<rparr>) \<and>
   add_hide_list device ''com.evil'' [] running =
     Inr (DAEMON_SUCCESS,
          running\<lparr>pkg_to_procs := Some (fmupd ''com.evil'' {''com.evil''} (the (pkg_to_procs running))),
                  killed := [300],
                  db_hidelist := db_hidelist running @ [(''com.evil'', ''com.evil'')]\<rparr>) \<and>
   (\<exists>e. add_hide_list (device\<lparr>db_write_ok := False\<rparr>) ''com.evil'' [] running =
          Inr (DAEMON_ERROR, e) \<and>
        pkg_to_procs e = Some (fmupd ''com.evil'' {''com.evil''} (the (pkg_to_procs running))) \<and>
        killed e = [300] \<and> db_hidelist e = db_hidelist running) \<and>
   rm_hide_list device ''com.a'' [] running =
     Inr (DAEMON_SUCCESS,
          running\<lparr>pkg_to_procs := Some (fmdrop ''com.a'' (the (pkg_to_procs running))),
                  app_id_to_pkgs := Some fmempty,
                  db_hidelist := [(''isolated'', ''com.a:sandboxed_process'')]\<rparr>) \<and>
   (\<exists>e. rm_hide_list (device\<lparr>db_write_ok := False\<rparr>) ''com.a'' [] running =
          Inr (DAEMON_ERROR, e) \<and>
        pkg_to_procs e = Some (fmdrop ''com.a'' (the (pkg_to_procs running))) \<and>
        app_id_to_pkgs e = Some fmempty \<and> db_hidelist e = db_hidelist running)"
proof -
  let ?off = "device\<lparr>db_write_ok := False\<rparr>"
  let ?added = "running\<lparr>pkg_to_procs := Some (fmupd ''com.evil'' {''com.evil''} (the (pkg_to_procs running))),
                  killed := [300],
                  db_hidelist := db_hidelist running @ [(''com.evil'', ''com.evil'')]\<rparr>"
  let ?removed = "running\<lparr>pkg_to_procs := Some (fmdrop ''com.a'' (the (pkg_to_procs running))),
                  app_id_to_pkgs := Some fmempty,
                  db_hidelist := [(''isolated'', ''com.a:sandboxed_process'')]\<rparr>"
  have off: "\<not> db_write_ok ?off" by simp
  have on: "?off\<lparr>db_write_ok := True\<rparr> = device" by (simp add: device_def)
  have a: "add_hide_list device ''com.evil'' [] running = Inr (DAEMON_SUCCESS, ?added)"
    by (simp add: engine_defs device_def running_def)
  have r: "rm_hide_list device ''com.a'' [] running = Inr (DAEMON_SUCCESS, ?removed)"
    by (simp add: engine_defs device_def running_def fmdrop_fmupd_same)
  from write_failure_keeps_memory [OF off, where pkg = "''com.evil''" and proc = "[]"
      and s = running and s_add = ?added] a on
  obtain e1 where e1: "add_hide_list ?off ''com.evil'' [] running = Inr (DAEMON_ERROR, e1)"
    "in_memory e1 = in_memory ?added" "db_hidelist e1 = db_hidelist running"
    by auto
  from write_failure_keeps_memory [OF off, where pkg = "''com.a''" and proc = "[]"
      and s = running and s_rm = ?removed] r on
  obtain e2 where e2: "rm_hide_list ?off ''com.a'' [] running = Inr (DAEMON_ERROR, e2)"
    "in_memory e2 = in_memory ?removed" "db_hidelist e2 = db_hidelist running"
    by auto
  from e1(2) have m1: "pkg_to_procs e1 =
      Some (fmupd ''com.evil'' {''com.evil''} (the (pkg_to_procs running)))" "killed e1 = [300]"
    by (simp_all add: in_memory_def)
  from e2(2) have m2: "pkg_to_procs e2 = Some (fmdrop ''com.a'' (the (pkg_to_procs running)))"
    "app_id_to_pkgs e2 = Some fmempty"
    by (simp_all add: in_memory_def)
  from off a r e1(1,3) e2(1,3) m1 m2 show ?thesis by blast
qed

subsection \<open>Adding an entry\<close>

lemma update_pkg_uid_index:
  "app_id_to_pkgs s = Some ix \<Longrightarrow>
   \<exists>ix'. update_pkg_uid w pkg rm s = Inr (s\<lparr>app_id_to_pkgs := Some ix'\<rparr>)"
proof -
  assume a: "app_id_to_pkgs s = Some ix"
  then have same: "s\<lparr>app_id_to_pkgs := Some ix\<rparr> = s" by simp
  show ?thesis
    using a same
    by (auto simp: update_pkg_uid_def Let_def split: option.splits intro: exI [of _ ix])
qed

lemma proc_name_match_eql: "proc_name_match str_eql e p \<longleftrightarrow> snd e = Some p"
  by (auto simp: proc_name_match_def str_eql_def split: option.splits)

lemma proc_name_match_starts:
  "proc_name_match str_starts e p \<longleftrightarrow> (case snd e of None \<Rightarrow> False | Some c \<Rightarrow> prefix p c)"
  by (simp add: proc_name_match_def str_starts_def split: option.splits)

text \<open>
  Claim C3, as stated, fails at two inputs. First, a pair that is present but not valid:
  the validator runs before the store is looked at. Enabling the engine over a persistent
  store that holds the row (\<^verbatim>\<open>android\<close>, \<^verbatim>\<open>android\<close>) loads that pair (rows are loaded
  without validation); adding the same pair again returns \<^verbatim>\<open>HIDE_INVALID_PKG\<close>, not
  \<^verbatim>\<open>HIDE_ITEM_EXIST\<close>. Second, a valid new pair added on a daemon that was never enabled:
  the lazy initialisation succeeds, and then the reaper rewinds the process-table handle
  that only \<^verbatim>\<open>launch_magiskhide\<close> opens, a null pointer; nothing is inserted or returned.
\<close>

theorem add_hide_list_claim_counterexample:
  "launch_magiskhide device False (fresh\<lparr>db_hidelist := [(''android'', ''android'')]\<rparr>)
     = Inr (DAEMON_SUCCESS, legacy) \<and>
   pkg_to_procs legacy = Some (fmupd ''android'' {''android''} fmempty) \<and>
   add_hide_list device ''android'' ''android'' legacy = Inr (HIDE_INVALID_PKG, legacy) \<and>
   validate (ISOLATED_MAGIC device) ''com.evil'' ''com.evil'' \<and>
   add_hide_list device ''com.evil'' [] fresh = Inl NullDeref"
  by (simp add: launch_defs engine_defs device_def fresh_def legacy_def)

text \<open>
  Claim C3, amended. For every pair, an empty process name first defaulting to the package
  name, in every state:
  \<^item> a pair that fails the validator is rejected with \<^verbatim>\<open>HIDE_INVALID_PKG\<close> and nothing
    changes, whether or not it is present;
  \<^item> \<^verbatim>\<open>add_hide_list\<close> initialises lazily: a built store is left as it is, a successful
    initialisation leaves a built store, and when the initialisation fails the call
    returns \<^verbatim>\<open>DAEMON_ERROR\<close> in the state the initialisation left;
  \<^item> if the valid pair is present in the store (as it was, or as the initialisation of this
    call loaded it), the call returns \<^verbatim>\<open>HIDE_ITEM_EXIST\<close> in exactly the state after the
    initialisation: the addition itself changes neither store, index nor persistent rows
    and kills no process;
  \<^item> if the valid pair is new, the pair is inserted and the reaper has run before the call
    returns: for the sandboxed-worker package it kills every live process whose command
    line starts with the process name, otherwise the first live process whose command line
    equals it and no other; the call returns \<^verbatim>\<open>DAEMON_SUCCESS\<close> with the row appended when
    the persistent write succeeds and \<^verbatim>\<open>DAEMON_ERROR\<close> with the rows unchanged when it fails.
  Nothing is stated about a call in which the reaper runs on a null process-table handle
  or the index update meets a null index (the second input above).
\<close>

theorem add_hide_list_cases:
  assumes "p = (if proc = [] then pkg else proc)"
  shows "(\<not> validate (ISOLATED_MAGIC w) pkg p
            \<longrightarrow> add_hide_list w pkg proc s = Inr (HIDE_INVALID_PKG, s)) \<and>
         (pkg_to_procs s \<noteq> None \<longrightarrow> init_list w s = Inr (True, s)) \<and>
         (init_list w s = Inr (True, t) \<longrightarrow> pkg_to_procs t \<noteq> None) \<and>
         (validate (ISOLATED_MAGIC w) pkg p \<and> init_list w s = Inr (False, t)
            \<longrightarrow> add_hide_list w pkg proc s = Inr (DAEMON_ERROR, t)) \<and>
         (validate (ISOLATED_MAGIC w) pkg p \<and> init_list w s = Inr (True, t) \<and>
          pkg_to_procs t = Some m \<and> p \<in> procs_of m pkg
            \<longrightarrow> add_hide_list w pkg proc s = Inr (HIDE_ITEM_EXIST, t)) \<and>
         (validate (ISOLATED_MAGIC w) pkg p \<and> init_list w s = Inr (True, t) \<and>
          pkg_to_procs t = Some m \<and> p \<notin> procs_of m pkg \<and> procfp t \<and> app_id_to_pkgs t \<noteq> None
            \<longrightarrow> (\<exists>s'. add_hide_list w pkg proc s =
                         Inr (if db_write_ok w then DAEMON_SUCCESS else DAEMON_ERROR, s') \<and>
                       pkg_to_procs s' = Some (fmupd pkg (insert p (procs_of m pkg)) m) \<and>
                       killed s' = killed t @
                         (if pkg = ISOLATED_MAGIC w
                          then map fst (filter (\<lambda>e. fst e > 0 \<and>
                                          (case snd e of None \<Rightarrow> False | Some c \<Rightarrow> prefix p c))
                                        (procfs w))
                          else (case find (\<lambda>e. fst e > 0 \<and> snd e = Some p) (procfs w) of
                                  None \<Rightarrow> []
                                | Some e \<Rightarrow> [fst e])) \<and>
                       db_hidelist s' =
                         (if db_write_ok w then db_hidelist s @ [(pkg, p)]
                          else db_hidelist s)))"
proof (intro conjI impI)
  assume "\<not> validate (ISOLATED_MAGIC w) pkg p"
  with assms show "add_hide_list w pkg proc s = Inr (HIDE_INVALID_PKG, s)"
    by (simp add: add_hide_list_def Let_def)
next
  assume "pkg_to_procs s \<noteq> None"
  then show "init_list w s = Inr (True, s)" by (simp add: init_list_def)
next
  assume "init_list w s = Inr (True, t)"
  then show "pkg_to_procs t \<noteq> None" by (rule init_list_store)
next
  assume "validate (ISOLATED_MAGIC w) pkg p \<and> init_list w s = Inr (False, t)"
  with assms show "add_hide_list w pkg proc s = Inr (DAEMON_ERROR, t)"
    by (simp add: add_hide_list_def rbind_def Let_def)
next
  assume "validate (ISOLATED_MAGIC w) pkg p \<and> init_list w s = Inr (True, t) \<and>
          pkg_to_procs t = Some m \<and> p \<in> procs_of m pkg"
  with assms show "add_hide_list w pkg proc s = Inr (HIDE_ITEM_EXIST, t)"
    by (simp add: add_hide_list_def add_hide_set_def rbind_def procs_of_def Let_def)
next
  assume new: "validate (ISOLATED_MAGIC w) pkg p \<and> init_list w s = Inr (True, t) \<and>
          pkg_to_procs t = Some m \<and> p \<notin> procs_of m pkg \<and> procfp t \<and> app_id_to_pkgs t \<noteq> None"
  let ?ks = "if pkg = ISOLATED_MAGIC w
             then map fst (filter (\<lambda>e. fst e > 0 \<and>
                             (case snd e of None \<Rightarrow> False | Some c \<Rightarrow> prefix p c))
                           (procfs w))
             else (case find (\<lambda>e. fst e > 0 \<and> snd e = Some p) (procfs w) of
                     None \<Rightarrow> []
                   | Some e \<Rightarrow> [fst e])"
  let ?t2 = "t\<lparr>pkg_to_procs := Some (fmupd pkg (insert p (procs_of m pkg)) m),
               killed := killed t @ ?ks\<rparr>"
  have set_: "add_hide_set w pkg p t = Inr (True, ?t2)"
    using new
    by (simp add: add_hide_set_def procs_of_def Let_def rbind_def str_eql_def
        kill_process_multi kill_process_single proc_name_match_eql proc_name_match_starts)
  from new obtain ix where "app_id_to_pkgs ?t2 = Some ix" by auto
  from update_pkg_uid_index [OF this, of w p False] obtain ix' where
    upd: "update_pkg_uid w p False ?t2 = Inr (?t2\<lparr>app_id_to_pkgs := Some ix'\<rparr>)" by blast
  let ?t3 = "?t2\<lparr>app_id_to_pkgs := Some ix'\<rparr>"
  let ?s' = "if db_write_ok w then ?t3\<lparr>db_hidelist := db_hidelist ?t3 @ [(pkg, p)]\<rparr> else ?t3"
  from new have db: "db_hidelist t = db_hidelist s" by (auto dest: init_list_db)
  have "add_hide_list w pkg proc s =
          Inr (if db_write_ok w then DAEMON_SUCCESS else DAEMON_ERROR, ?s')"
    using assms new set_ upd
    by (simp add: add_hide_list_def rbind_def Let_def del: fmupd_lookup)
  moreover have "pkg_to_procs ?s' = Some (fmupd pkg (insert p (procs_of m pkg)) m)" by simp
  moreover have "killed ?s' = killed t @ ?ks" by simp
  moreover have "db_hidelist ?s' =
                    (if db_write_ok w then db_hidelist s @ [(pkg, p)] else db_hidelist s)"
    using db by simp
  ultimately show "\<exists>s'. add_hide_list w pkg proc s =
                     Inr (if db_write_ok w then DAEMON_SUCCESS else DAEMON_ERROR, s') \<and>
                  pkg_to_procs s' = Some (fmupd pkg (insert p (procs_of m pkg)) m) \<and>
                  killed s' = killed t @ ?ks \<and>
                  db_hidelist s' =
                    (if db_write_ok w then db_hidelist s @ [(pkg, p)] else db_hidelist s)"
    by blast
qed

text \<open>
  On the device: an invalid pair, absent and present; a failing initialisation; a present
  pair on a built store and on a stopped engine (where the initialisation of the call loads
  the pair and kills process 300); a new pair of a normal package (process 300 is killed,
  process 301 with the same command line is not) and of the sandboxed-worker package
  (processes 400 and 401 are killed).
\<close>

theorem add_hide_list_cases_witness:
  "\<not> validate (ISOLATED_MAGIC device) ''com foo'' ''com foo'' \<and>
   add_hide_list device ''com foo'' [] running = Inr (HIDE_INVALID_PKG, running) \<and>
   \<not> validate (ISOLATED_MAGIC device) ''android'' ''android'' \<and>
   add_hide_list device ''android'' [] legacy = Inr (HIDE_INVALID_PKG, legacy) \<and>
   validate (ISOLATED_MAGIC device) ''com.a'' ''com.a'' \<and>
   init_list (device\<lparr>db_select_err := Some 0\<rparr>) fresh
     = Inr (False, fresh\<lparr>pkg_to_procs := Some fmempty\<rparr>) \<and>
   add_hide_list (device\<lparr>db_select_err := Some 0\<rparr>) ''com.a'' [] fresh
     = Inr (DAEMON_ERROR, fresh\<lparr>pkg_to_procs := Some fmempty\<rparr>) \<and>
   init_list device running = Inr (True, running) \<and>
   ''com.a'' \<in> procs_of (the (pkg_to_procs running)) ''com.a'' \<and>
   add_hide_list device ''com.a'' [] running = Inr (HIDE_ITEM_EXIST, running) \<and>
   validate (ISOLATED_MAGIC device) ''com.evil'' ''com.evil'' \<and>
   init_list device stopped
     = Inr (True, stopped\<lparr>pkg_to_procs := Some (fmupd ''com.evil'' {''com.evil''} fmempty),
                            app_id_to_pkgs := Some fmempty, killed := [300]\<rparr>) \<and>
   add_hide_list device ''com.evil'' [] stopped
     = Inr (HIDE_ITEM_EXIST,
            stopped\<lparr>pkg_to_procs := Some (fmupd ''com.evil'' {''com.evil''} fmempty),
                    app_id_to_pkgs := Some fmempty, killed := [300]\<rparr>) \<and>
   ''com.evil'' \<notin> procs_of (the (pkg_to_procs running)) ''com.evil'' \<and>
   procfp running \<and> app_id_to_pkgs running \<noteq> None \<and>
   (\<exists>s'. add_hide_list device ''com.evil'' [] running = Inr (DAEMON_SUCCESS, s') \<and>
         pkg_to_procs s' = Some (fmupd ''com.evil'' {''com.evil''} (the (pkg_to_procs running))) \<and>
         killed s' = [300]) \<and>
   validate (ISOLATED_MAGIC device) ''isolated'' ''worker'' \<and>
   ''worker'' \<notin> procs_of (the (pkg_to_procs running)) ''isolated'' \<and>
   (\<exists>s'. add_hide_list device ''isolated'' ''worker'' running = Inr (DAEMON_SUCCESS, s') \<and>
         killed s' = [400, 401])"
proof -
  let ?m = "fmupd ''isolated'' {''com.a:sandboxed_process''} (fmupd ''com.a'' {''com.a''} fmempty)"
  let ?off = "device\<lparr>db_select_err := Some 0\<rparr>"
  let ?built = "stopped\<lparr>pkg_to_procs := Some (fmupd ''com.evil'' {''com.evil''} fmempty),
                        app_id_to_pkgs := Some fmempty, killed := [300]\<rparr>"
  have m: "pkg_to_procs running = Some ?m" by (simp add: running_def)
  have pre: "procfp running" "app_id_to_pkgs running \<noteq> None" by (simp_all add: running_def)
  have magic: "ISOLATED_MAGIC ?off = ISOLATED_MAGIC device" by simp
  have v0: "\<not> validate (ISOLATED_MAGIC device) ''com foo'' ''com foo''"
    and v0': "\<not> validate (ISOLATED_MAGIC device) ''android'' ''android''"
    and v1: "validate (ISOLATED_MAGIC device) ''com.a'' ''com.a''"
    and v2: "validate (ISOLATED_MAGIC device) ''com.evil'' ''com.evil''"
    and v3: "validate (ISOLATED_MAGIC device) ''isolated'' ''worker''"
    by (simp_all add: validate_def str_eql_def isalnum_def device_def)
  have p1: "''com.a'' \<in> procs_of ?m ''com.a''"
    and p2: "''com.evil'' \<notin> procs_of ?m ''com.evil''"
    and p3: "''worker'' \<notin> procs_of ?m ''isolated''"
    and p4: "''com.evil'' \<in> procs_of (fmupd ''com.evil'' {''com.evil''} fmempty) ''com.evil''"
    by (simp_all add: procs_of_def)
  have e0: "''com foo'' = (if ([] :: string) = [] then ''com foo'' else [])"
    and e0': "''android'' = (if ([] :: string) = [] then ''android'' else [])"
    and e1: "''com.a'' = (if ([] :: string) = [] then ''com.a'' else [])"
    and e2: "''com.evil'' = (if ([] :: string) = [] then ''com.evil'' else [])"
    and e3: "''worker'' = (if ''worker'' = [] then ''isolated'' else ''worker'')"
    by simp_all
  have d: "db_write_ok device" "ISOLATED_MAGIC device = ''isolated''" "killed running = []"
    by (simp_all add: device_def running_def)
  have i_fail: "init_list ?off fresh = Inr (False, fresh\<lparr>pkg_to_procs := Some fmempty\<rparr>)"
    by (simp add: engine_defs device_def fresh_def)
  have i_run: "init_list device running = Inr (True, running)"
    using m by (simp add: init_list_def)
  have i_stop: "init_list device stopped = Inr (True, ?built)"
    by (simp add: engine_defs device_def stopped_def)
  have b: "pkg_to_procs ?built = Some (fmupd ''com.evil'' {''com.evil''} fmempty)" by simp
  from add_hide_list_cases [OF e0, where w = device and s = running] v0
  have r0: "add_hide_list device ''com foo'' [] running = Inr (HIDE_INVALID_PKG, running)"
    by blast
  from add_hide_list_cases [OF e0', where w = device and s = legacy] v0'
  have r0': "add_hide_list device ''android'' [] legacy = Inr (HIDE_INVALID_PKG, legacy)"
    by blast
  from add_hide_list_cases [OF e1, where w = ?off and s = fresh
      and t = "fresh\<lparr>pkg_to_procs := Some fmempty\<rparr>"] v1 i_fail magic
  have rf: "add_hide_list ?off ''com.a'' [] fresh
              = Inr (DAEMON_ERROR, fresh\<lparr>pkg_to_procs := Some fmempty\<rparr>)"
    by simp
  from add_hide_list_cases [OF e1, where w = device and s = running and t = running
      and m = ?m] v1 p1 i_run m
  have r1: "add_hide_list device ''com.a'' [] running = Inr (HIDE_ITEM_EXIST, running)"
    by blast
  from add_hide_list_cases [OF e2, where w = device and s = stopped and t = ?built
      and m = "fmupd ''com.evil'' {''com.evil''} fmempty"] v2 p4 i_stop b
  have rs: "add_hide_list device ''com.evil'' [] stopped = Inr (HIDE_ITEM_EXIST, ?built)"
    by blast
  from add_hide_list_cases [OF e2, where w = device and s = running and t = running
      and m = ?m] v2 p2 pre d i_run m obtain s2 where
    a2: "add_hide_list device ''com.evil'' [] running = Inr (DAEMON_SUCCESS, s2)"
        "pkg_to_procs s2 = Some (fmupd ''com.evil'' (insert ''com.evil'' (procs_of ?m ''com.evil'')) ?m)"
        "killed s2 = (case find (\<lambda>e. fst e > 0 \<and> snd e = Some ''com.evil'') (procfs device) of
                             None \<Rightarrow> []
                           | Some e \<Rightarrow> [fst e])"
    by auto
  from a2(2) have m2: "pkg_to_procs s2 = Some (fmupd ''com.evil'' {''com.evil''} ?m)"
    by (simp add: procs_of_def)
  from a2(3) have k2: "killed s2 = [300]" by (simp add: device_def)
  from add_hide_list_cases [OF e3, where w = device and s = running and t = running
      and m = ?m] v3 p3 pre d i_run m obtain s3 where
    a3: "add_hide_list device ''isolated'' ''worker'' running = Inr (DAEMON_SUCCESS, s3)"
        "killed s3 = map fst (filter (\<lambda>e. fst e > 0 \<and>
                                     (case snd e of None \<Rightarrow> False | Some c \<Rightarrow> prefix ''worker'' c))
                                   (procfs device))"
    by auto
  from a3(2) have k3: "killed s3 = [400, 401]" by (simp add: device_def)
  from a2(1) m2 k2 have r2: "\<exists>s'. add_hide_list device ''com.evil'' [] running = Inr (DAEMON_SUCCESS, s') \<and>
         pkg_to_procs s' = Some (fmupd ''com.evil'' {''com.evil''} ?m) \<and> killed s' = [300]"
    by blast
  from a3(1) k3 have r3: "\<exists>s'. add_hide_list device ''isolated'' ''worker'' running = Inr (DAEMON_SUCCESS, s') \<and>
         killed s' = [400, 401]"
    by blast
  from m pre v0 v0' v1 v2 v3 p1 p2 p3 r0 r0' i_fail rf i_run r1 i_stop rs r2 r3
  show ?thesis by simp
qed

subsection \<open>Enabling\<close>

lemma launch_no_namespace:
  "\<not> hide_enabled s \<Longrightarrow> \<not> ns_mnt_ok w \<Longrightarrow> launch_magiskhide w late s = Inr (HIDE_NO_NS, s)"
  by (simp add: launch_magiskhide_def)

lemma launch_rolls_back:
  "\<not> hide_enabled s \<Longrightarrow> ns_mnt_ok w \<Longrightarrow> procfp s \<or> proc_open_ok w \<Longrightarrow>
   init_list w (s\<lparr>procfp := True, hide_enabled := True\<rparr>) = Inr (False, s1) \<Longrightarrow>
   launch_magiskhide w late s = Inr (DAEMON_ERROR, s1\<lparr>hide_enabled := False\<rparr>)"
  by (auto simp: launch_magiskhide_def rbind_def)

lemma launch_from_consistent:
  assumes "\<not> hide_enabled s"
    and "pkg_to_procs s \<noteq> None \<longrightarrow> app_id_to_pkgs s \<noteq> None"
    and "launch_magiskhide w late s = Inr (st, s')"
    and "hide_enabled s'"
  shows "pkg_to_procs s' \<noteq> None \<and> app_id_to_pkgs s' \<noteq> None"
proof -
  let ?s0 = "s\<lparr>procfp := True, hide_enabled := True\<rparr>"
  from assms(1,3,4) obtain s1 s3 where
    i: "init_list w ?s0 = Inr (True, s1)" and
    k: "launch_sweeps w s1 = Inr s3" and
    f: "s' = s3 \<or> (\<exists>s4. update_uid_map w s3 = Inr s4 \<and> s' = update_hide_config w s4)"
    by (auto simp: launch_magiskhide_def rbind_def split: if_splits sum.splits)
  have built: "pkg_to_procs s1 \<noteq> None \<and> app_id_to_pkgs s1 \<noteq> None"
  proof (cases "pkg_to_procs s")
    case None
    with init_list_builds_both [OF i] show ?thesis by simp
  next
    case (Some m)
    with i have "s1 = ?s0" by (simp add: init_list_def)
    with Some assms(2) show ?thesis by simp
  qed
  with launch_sweeps_ptrs [OF k]
  have b3: "pkg_to_procs s3 \<noteq> None \<and> app_id_to_pkgs s3 \<noteq> None" by simp
  from f show ?thesis
  proof
    assume "s' = s3"
    with b3 show ?thesis by simp
  next
    assume "\<exists>s4. update_uid_map w s3 = Inr s4 \<and> s' = update_hide_config w s4"
    then obtain s4 where u: "update_uid_map w s3 = Inr s4" and e: "s' = update_hide_config w s4"
      by blast
    from update_uid_map_ptrs [OF u] b3 e show ?thesis
      by (simp add: update_hide_config_def)
  qed
qed

text \<open>
  A launch on a stopped engine: \<^verbatim>\<open>stop_magiskhide\<close> frees both structures and keeps the
  cached registry fingerprint, so the \<^verbatim>\<open>update_uid_map\<close> of the next initialisation is a no-op
  and the index stays empty although \<^verbatim>\<open>com.a\<close> is hidden and installed: a target before the
  stop is no target after the relaunch.
\<close>

lemma relaunch_after_stop:
  "stop_magiskhide device running
     = (DAEMON_SUCCESS,
        running\<lparr>pkg_to_procs := None, app_id_to_pkgs := None, hide_enabled := False,
                db_hide_config := Some False\<rparr>) \<and>
   launch_magiskhide device False
     (running\<lparr>pkg_to_procs := None, app_id_to_pkgs := None, hide_enabled := False,
              db_hide_config := Some False\<rparr>)
     = Inr (DAEMON_SUCCESS, running\<lparr>app_id_to_pkgs := Some fmempty, killed := [201]\<rparr>) \<and>
   is_hide_target device 10001 ''com.a'' 1024 running = Inr (True, running) \<and>
   is_hide_target device 10001 ''com.a'' 1024
     (running\<lparr>app_id_to_pkgs := Some fmempty, killed := [201]\<rparr>)
     = Inr (False, running\<lparr>app_id_to_pkgs := Some fmempty, killed := [201]\<rparr>)"
  by (simp add: stop_magiskhide_def launch_defs engine_defs is_hide_target_def
      owned_procs_hit_def device_def running_def)

text \<open>
  Claim C2: \<^verbatim>\<open>launch_magiskhide\<close> fails with \<^verbatim>\<open>HIDE_NO_NS\<close> without the mount-namespace
  primitive (\<open>launch_no_namespace\<close>), rolls the enabled flag back when \<^verbatim>\<open>init_list\<close> fails
  (\<open>launch_rolls_back\<close>), and so never leaves the flag true over a store that is not fully
  built. From a state in which the index is allocated whenever the store is, a launch that
  leaves the flag true leaves both pointers non-null (\<open>launch_from_consistent\<close>; that the
  index is also filled is not so, \<open>relaunch_after_stop\<close>). But the failed \<^verbatim>\<open>init_list\<close>
  itself leaves another state behind: it returns false with \<^verbatim>\<open>pkg_to_procs_\<close> allocated and
  \<^verbatim>\<open>app_id_to_pkgs_\<close> null. The code there: a first launch whose \<^verbatim>\<open>SELECT\<close> fails returns
  \<^verbatim>\<open>DAEMON_ERROR\<close> with the flag false and the store half built; the next launch takes the
  store for initialised, keeps the flag true, and either returns with the index still null
  (when the monitor thread cannot be started, or when \<^verbatim>\<open>stat\<close> of the registry fails) or
  dereferences the null index.
\<close>

theorem launch_after_failed_init:
  "launch_magiskhide (device\<lparr>db_select_err := Some 0\<rparr>) False fresh
     = Inr (DAEMON_ERROR, half_built) \<and>
   pkg_to_procs half_built = Some fmempty \<and> app_id_to_pkgs half_built = None \<and>
   \<not> hide_enabled half_built \<and>
   launch_magiskhide (device\<lparr>monitor_start_ok := False\<rparr>) False half_built
     = Inr (DAEMON_ERROR, half_built\<lparr>hide_enabled := True, killed := [201]\<rparr>) \<and>
   launch_magiskhide (device\<lparr>packages_xml_ino := 0\<rparr>) False half_built
     = Inr (DAEMON_SUCCESS,
            half_built\<lparr>hide_enabled := True, killed := [201], db_hide_config := Some True\<rparr>) \<and>
   launch_magiskhide device False half_built = Inl NullDeref"
  by (simp add: launch_defs engine_defs device_def fresh_def half_built_def)

subsection \<open>Removing an entry\<close>

lemma rm_hide_list_store:
  assumes "pkg_to_procs s = Some m" "app_id_to_pkgs s = Some ix"
  shows "(fmlookup m pkg = None \<or> (proc \<noteq> [] \<and> proc \<notin> procs_of m pkg)
            \<longrightarrow> rm_hide_list w pkg proc s = Inr (HIDE_ITEM_NOT_EXIST, s)) \<and>
         (fmlookup m pkg = Some S \<and> (proc = [] \<or> S = {proc})
            \<longrightarrow> (\<exists>s'. rm_hide_list w pkg proc s =
                         Inr (if db_write_ok w then DAEMON_SUCCESS else DAEMON_ERROR, s') \<and>
                       pkg_to_procs s' = Some (fmdrop pkg m))) \<and>
         (fmlookup m pkg = Some S \<and> proc \<noteq> [] \<and> proc \<in> S \<and> S \<noteq> {proc}
            \<longrightarrow> (\<exists>s'. rm_hide_list w pkg proc s =
                         Inr (if db_write_ok w then DAEMON_SUCCESS else DAEMON_ERROR, s') \<and>
                       pkg_to_procs s' = Some (fmupd pkg (S - {proc}) m) \<and>
                       app_id_to_pkgs s' = Some ix))"
proof (intro conjI impI)
  assume "fmlookup m pkg = None \<or> (proc \<noteq> [] \<and> proc \<notin> procs_of m pkg)"
  with assms(1) show "rm_hide_list w pkg proc s = Inr (HIDE_ITEM_NOT_EXIST, s)"
    by (auto simp: rm_hide_list_def rm_hide_set_def init_list_built rbind_def procs_of_def
        split: option.splits)
next
  assume a: "fmlookup m pkg = Some S \<and> (proc = [] \<or> S = {proc})"
  from update_pkg_uid_index [OF assms(2), of w pkg True] obtain ix' where
    u: "update_pkg_uid w pkg True s = Inr (s\<lparr>app_id_to_pkgs := Some ix'\<rparr>)" by blast
  from a have "proc = [] \<or> (proc \<in> S \<and> S - {proc} = {})" by auto
  with a assms(1) u
  have "rm_hide_set w pkg proc s =
          Inr (True, s\<lparr>app_id_to_pkgs := Some ix', pkg_to_procs := Some (fmdrop pkg m)\<rparr>)"
    by (auto simp: rm_hide_set_def rbind_def)
  with assms(1)
  show "\<exists>s'. rm_hide_list w pkg proc s =
               Inr (if db_write_ok w then DAEMON_SUCCESS else DAEMON_ERROR, s') \<and>
             pkg_to_procs s' = Some (fmdrop pkg m)"
    by (simp add: rm_hide_list_def init_list_built rbind_def)
next
  assume a: "fmlookup m pkg = Some S \<and> proc \<noteq> [] \<and> proc \<in> S \<and> S \<noteq> {proc}"
  then have "S - {proc} \<noteq> {}" by auto
  with a assms(1)
  have "rm_hide_set w pkg proc s =
          Inr (True, s\<lparr>pkg_to_procs := Some (fmupd pkg (S - {proc}) m)\<rparr>)"
    by (simp add: rm_hide_set_def)
  with assms
  show "\<exists>s'. rm_hide_list w pkg proc s =
               Inr (if db_write_ok w then DAEMON_SUCCESS else DAEMON_ERROR, s') \<and>
             pkg_to_procs s' = Some (fmupd pkg (S - {proc}) m) \<and>
             app_id_to_pkgs s' = Some ix"
    by (simp add: rm_hide_list_def init_list_built rbind_def)
qed

text \<open>
  Claim C4: removing a package (with an empty process name, or by removing its last process
  name) drops the package from the store, and afterwards the index associates no app
  identity with it. The store is changed as claimed (\<open>rm_hide_list_store\<close>). The index is
  not: \<^verbatim>\<open>update_pkg_uid\<close> erases the package only from the bucket of the owner of its data
  directory as it is on disk now. The code where the package has been uninstalled since the
  engine was enabled: both removals succeed, \<^verbatim>\<open>com.a\<close> leaves the store, and the index still
  associates identity 10001 with \<^verbatim>\<open>com.a\<close>.
\<close>

theorem rm_hide_list_leaves_index:
  "launch_magiskhide device False (fresh\<lparr>db_hidelist := db_hidelist running\<rparr>)
     = Inr (DAEMON_SUCCESS, running\<lparr>killed := [201]\<rparr>) \<and>
   fmlookup (the (app_id_to_pkgs running)) 10001 = Some {''com.a''} \<and>
   rm_hide_list uninstalled ''com.a'' [] (running\<lparr>killed := [201]\<rparr>)
     = Inr (DAEMON_SUCCESS, orphaned\<lparr>killed := [201]\<rparr>) \<and>
   rm_hide_list uninstalled ''com.a'' ''com.a'' (running\<lparr>killed := [201]\<rparr>)
     = Inr (DAEMON_SUCCESS, orphaned\<lparr>killed := [201]\<rparr>) \<and>
   fmlookup (the (pkg_to_procs orphaned)) ''com.a'' = None \<and>
   fmlookup (the (app_id_to_pkgs orphaned)) 10001 = Some {''com.a''}"
  by (simp add: launch_defs engine_defs uninstalled_def device_def fresh_def running_def
      orphaned_def fmdrop_fmupd)

subsection \<open>The index and the store\<close>

lemma index_in_store_built:
  "pkg_to_procs s = Some m \<Longrightarrow> app_id_to_pkgs s = Some ix \<Longrightarrow>
   index_in_store s \<longleftrightarrow> (\<forall>a pkgs. fmlookup ix a = Some pkgs \<longrightarrow> (\<forall>p \<in> pkgs. p |\<in>| fmdom m))"
  by (auto simp: index_in_store_def fmdom'_alt_def subset_iff split: option.splits
      dest: fbspec fmdomI intro!: fBallI)

lemma update_uid_map_index_in_store:
  assumes "pkg_to_procs s = Some m" "app_id_to_pkgs s = Some ix" "index_in_store s"
  shows "\<exists>s'. update_uid_map w s = Inr s' \<and> index_in_store s'"
proof (cases "pkg_xml_ino s = packages_xml_ino w")
  case True
  with assms show ?thesis by (simp add: update_uid_map_def)
next
  case False
  with update_uid_map_rebuild [of s w m ix] assms(1,2) obtain ix' where
    run: "update_uid_map w s =
            Inr (s\<lparr>pkg_xml_ino := packages_xml_ino w, cached_manager_app_id := - 1,
                   app_id_to_pkgs := Some ix'\<rparr>)" and
    look: "\<forall>a. fmlookup ix' a =
             (case find (\<lambda>e. stat_app_id (to_app_id w) (snd e) = a \<and> fst e |\<in>| fmdom m)
                     (case app_data w of None \<Rightarrow> [] | Some users \<Rightarrow> walk users) of
                None \<Rightarrow> None
              | Some e \<Rightarrow> Some {fst e})"
    by blast
  let ?s' = "s\<lparr>pkg_xml_ino := packages_xml_ino w, cached_manager_app_id := - 1,
                   app_id_to_pkgs := Some ix'\<rparr>"
  have "index_in_store ?s'"
  proof -
    have "\<forall>a pkgs. fmlookup ix' a = Some pkgs \<longrightarrow> (\<forall>p \<in> pkgs. p |\<in>| fmdom m)"
    proof (intro allI impI ballI)
      fix a pkgs p
      assume l: "fmlookup ix' a = Some pkgs" and p: "p \<in> pkgs"
      from l look obtain e where
        f: "find (\<lambda>e. stat_app_id (to_app_id w) (snd e) = a \<and> fst e |\<in>| fmdom m)
              (case app_data w of None \<Rightarrow> [] | Some users \<Rightarrow> walk users) = Some e"
        and "pkgs = {fst e}"
        by (auto split: option.splits)
      with p have "p = fst e" by simp
      moreover from f have "fst e |\<in>| fmdom m" by (auto simp: find_Some_iff)
      ultimately show "p |\<in>| fmdom m" by simp
    qed
    moreover have "pkg_to_procs ?s' = Some m" "app_id_to_pkgs ?s' = Some ix'"
      using assms(1) by simp_all
    ultimately show ?thesis by (simp only: index_in_store_built)
  qed
  with run show ?thesis by blast
qed

lemma update_pkg_uid_insert:
  assumes "app_id_to_pkgs s = Some ix" "update_pkg_uid w pkg False s = Inr s3"
  shows "\<exists>ix'. s3 = s\<lparr>app_id_to_pkgs := Some ix'\<rparr> \<and>
           (\<forall>a pkgs. fmlookup ix' a = Some pkgs \<longrightarrow>
              (\<forall>p \<in> pkgs. p = pkg \<or> (\<exists>old. fmlookup ix a = Some old \<and> p \<in> old)))"
proof -
  consider (same) "s3 = s" | (ins) a where "s3 = s\<lparr>app_id_to_pkgs := Some (bucket_insert ix a pkg)\<rparr>"
    using assms by (auto simp: update_pkg_uid_def Let_def split: option.splits)
  then show ?thesis
  proof cases
    case same
    with assms(1) have "s3 = s\<lparr>app_id_to_pkgs := Some ix\<rparr>" by simp
    then show ?thesis by blast
  next
    case ins
    have "\<forall>b pkgs. fmlookup (bucket_insert ix a pkg) b = Some pkgs \<longrightarrow>
              (\<forall>p \<in> pkgs. p = pkg \<or> (\<exists>old. fmlookup ix b = Some old \<and> p \<in> old))"
      by (auto simp: bucket_insert_def split: option.splits if_splits)
    with ins show ?thesis by blast
  qed
qed

lemma add_hide_list_index_in_store:
  assumes "pkg_to_procs s = Some m" "app_id_to_pkgs s = Some ix" "index_in_store s"
    and "proc = [] \<or> proc = pkg"
    and "add_hide_list w pkg proc s = Inr (st, s')"
  shows "index_in_store s'"
proof -
  from assms(4) have p: "(if proc = [] then pkg else proc) = pkg" by auto
  from assms(1) have i: "init_list w s = Inr (True, s)" by (rule init_list_built)
  from assms(1,2,3) have inv: "\<forall>a pkgs. fmlookup ix a = Some pkgs \<longrightarrow> (\<forall>p \<in> pkgs. p |\<in>| fmdom m)"
    by (simp add: index_in_store_built)
  show ?thesis
  proof (cases "validate (ISOLATED_MAGIC w) pkg pkg")
    case False
    with assms(3,5) p show ?thesis by (simp add: add_hide_list_def Let_def)
  next
    case v: True
    show ?thesis
    proof (cases "pkg \<in> procs_of m pkg")
      case True
      with assms(1) have "add_hide_set w pkg pkg s = Inr (False, s)"
        by (simp add: add_hide_set_def procs_of_def Let_def)
      with assms(3,5) v i p show ?thesis
        by (simp add: add_hide_list_def rbind_def Let_def)
    next
      case False
      from assms(5) v i p obtain b s2 where
        a: "add_hide_set w pkg pkg s = Inr (b, s2)"
        by (auto simp: add_hide_list_def rbind_def Let_def split: if_splits sum.splits)
      from a assms(1,2) False have b: "b" and
        s2: "pkg_to_procs s2 = Some (fmupd pkg (insert pkg (procs_of m pkg)) m)"
            "app_id_to_pkgs s2 = Some ix"
        by (auto simp: add_hide_set_def rbind_def Let_def procs_of_def kill_process_def
            split: if_splits sum.splits)
      from assms(5) v i p a b obtain s3 where
        u: "update_pkg_uid w pkg False s2 = Inr s3" and
        r: "pkg_to_procs s' = pkg_to_procs s3" "app_id_to_pkgs s' = app_id_to_pkgs s3"
        by (auto simp: add_hide_list_def rbind_def Let_def split: if_splits sum.splits)
      let ?m' = "fmupd pkg (insert pkg (procs_of m pkg)) m"
      from update_pkg_uid_insert [OF s2(2) u] obtain ix' where
        s3': "s3 = s2\<lparr>app_id_to_pkgs := Some ix'\<rparr>" and
        grow: "\<forall>a pkgs. fmlookup ix' a = Some pkgs \<longrightarrow>
                 (\<forall>p \<in> pkgs. p = pkg \<or> (\<exists>old. fmlookup ix a = Some old \<and> p \<in> old))"
        by blast
      from s3' s2 have s3: "pkg_to_procs s3 = Some ?m'" "app_id_to_pkgs s3 = Some ix'"
        by simp_all
      have "\<forall>a pkgs. fmlookup ix' a = Some pkgs \<longrightarrow> (\<forall>p \<in> pkgs. p |\<in>| fmdom ?m')"
        using grow inv by fastforce
      with s3 r show ?thesis by (simp add: index_in_store_built)
    qed
  qed
qed

text \<open>
  Claim C9: every package of every bucket of the index is a key of the store, add, remove,
  refresh and the single-package update keep it so, and hence the unguarded lookup of
  \<^verbatim>\<open>is_hide_target\<close> never meets a missing key. The refresh keeps the invariant
  (\<open>update_uid_map_index_in_store\<close>), and so does an addition whose process name is the
  package name (\<open>add_hide_list_index_in_store\<close>). The code elsewhere:
  \<^item> \<^verbatim>\<open>add_hide_list\<close> hands the process name, not the package name, to \<^verbatim>\<open>update_pkg_uid\<close>.
    Adding the process name \<^verbatim>\<open>com.b\<close> to the hidden package \<^verbatim>\<open>com.a\<close>, on a device where
    \<^verbatim>\<open>com.b\<close> is an installed package, puts \<^verbatim>\<open>com.b\<close> into the bucket of its owner although it
    is no key of the store; the next query for that identity dereferences the end
    iterator.
  \<^item> \<^verbatim>\<open>rm_hide_list\<close> erases the package from the store also when \<^verbatim>\<open>update_pkg_uid\<close> could not
    find its directory (here: the app-data directory cannot be opened) and so left the
    index alone; the next query for identity 10001, the registry unchanged, dereferences
    the end iterator.
\<close>

theorem index_in_store_broken:
  "index_in_store running \<and>
   add_hide_list device ''com.a'' ''com.b'' running = Inr (DAEMON_SUCCESS, crossed) \<and>
   \<not> index_in_store crossed \<and>
   is_hide_target device 10001 ''com.c'' 1024 crossed = Inl EndDeref \<and>
   check_uid_map device 10001 ''com.c'' crossed = Inl EndDeref \<and>
   rm_hide_list (device\<lparr>app_data := None\<rparr>) ''com.a'' [] running
     = Inr (DAEMON_SUCCESS, orphaned) \<and>
   \<not> index_in_store orphaned \<and>
   is_hide_target device 10001 ''com.a'' 1024 orphaned = Inl EndDeref"
  by (simp add: engine_defs is_hide_target_def check_uid_map_def owned_procs_hit_def
      index_in_store_def device_def running_def orphaned_def crossed_def fmdrop_fmupd
      insert_commute)

text \<open>
  What the evaluation shows of the invariant and of the lookup, on its own: the state after
  the addition violates the invariant, and the query on it faults.
\<close>

theorem index_in_store_broken_witness:
  "\<not> index_in_store crossed \<and>
   is_hide_target device 10001 ''com.c'' 1024 crossed = Inl EndDeref"
  using index_in_store_broken by blast

end
